theory Spec2Isabelle
  imports Complex_Main "HOL-Library.Char_ord" "HOL-Library.List_Lexorder" "HOL-Library.AList"
    "HOL-Library.Log_Nat"
begin

section \<open>JavaScript values and the built-ins the services use\<close>

text \<open>
  The services are JavaScript, so their data is untyped JSON. A number held in a variable
  is either an integer or \<open>NaN\<close> (what \<open>parseInt\<close> and \<open>Number\<close> give on text that is not a
  number): the counters of the services are integers, whose sums and products are exact in
  the doubles of the source below \<open>2^53\<close>. A quotient is not an integer; it is rounded to a
  double as the source rounds it, see \<open>fl\<close> below. Infinities are outside the model. A string
  is a list of bytes.
\<close>

datatype jsnum = Num int | NaN

datatype jsval =
    JUndefined
  | JNull
  | JBool bool
  | JNumber jsnum
  | JStr string
  | JArr "jsval list"
  | JObj "(string \<times> jsval) list"

text \<open>What a \<open>throw\<close> carries: the kind of error and its \<open>message\<close>.\<close>

datatype jserror =
    TypeError string
  | AxiosError "nat option" string
  | OtherError string

fun message :: "jserror \<Rightarrow> string" where
  "message (TypeError m) = m"
| "message (AxiosError st m) = m"
| "message (OtherError m) = m"

text \<open>Truthiness: what \<open>!x\<close>, \<open>x || y\<close> and \<open>if (x)\<close> test.\<close>

fun truthy :: "jsval \<Rightarrow> bool" where
  "truthy JUndefined = False"
| "truthy JNull = False"
| "truthy (JBool b) = b"
| "truthy (JNumber (Num n)) = (n \<noteq> 0)"
| "truthy (JNumber NaN) = False"
| "truthy (JStr s) = (s \<noteq> [])"
| "truthy (JArr xs) = True"
| "truthy (JObj kvs) = True"

definition jsOr :: "jsval \<Rightarrow> jsval \<Rightarrow> jsval" where
  "jsOr a b = (if truthy a then a else b)"

text \<open>
  Reading a property \<open>x.k\<close>: a \<open>TypeError\<close> on \<open>null\<close> and \<open>undefined\<close>, the member of an
  object, and \<open>undefined\<close> otherwise (none of the keys the services read is a built-in
  property of a string, number, boolean or array).
\<close>

fun getProp :: "jsval \<Rightarrow> string \<Rightarrow> jserror + jsval" where
  "getProp JUndefined k = Inl (TypeError ''Cannot read properties of undefined'')"
| "getProp JNull k = Inl (TypeError ''Cannot read properties of null'')"
| "getProp (JObj kvs) k = Inr (case map_of kvs k of None \<Rightarrow> JUndefined | Some v \<Rightarrow> v)"
| "getProp v k = Inr JUndefined"

text \<open>\<open>x.a || x.b\<close> on a value \<open>x\<close> already known not to be \<open>null\<close> or \<open>undefined\<close>.\<close>

definition propOf :: "jsval \<Rightarrow> string \<Rightarrow> jsval" where
  "propOf v k = (case getProp v k of Inl e \<Rightarrow> JUndefined | Inr x \<Rightarrow> x)"

text \<open>Arithmetic on numbers: \<open>NaN\<close> is contagious.\<close>

fun jsAdd :: "jsnum \<Rightarrow> jsnum \<Rightarrow> jsnum" where
  "jsAdd (Num a) (Num b) = Num (a + b)"
| "jsAdd a b = NaN"

fun jsMul :: "jsnum \<Rightarrow> jsnum \<Rightarrow> jsnum" where
  "jsMul (Num a) (Num b) = Num (a * b)"
| "jsMul a b = NaN"

text \<open>
  Division and multiplication give doubles. \<open>fl x\<close> is the double nearest to the rational
  \<open>x\<close>, as IEEE 754 binary64 rounds the exact result of an operation: 53 significant
  bits, a tie to the even significand. \<open>ilog2 x\<close> is the binary exponent of a positive
  \<open>x\<close>, \<open>2^e \<le> x < 2^(e + 1)\<close>; \<open>rne\<close> rounds to the nearest integer, a tie to the even
  one. The exponent is not bounded here; binary64 agrees wherever the magnitude lies
  between \<open>2^-1022\<close> and \<open>2^1024\<close>, which holds for every quotient of two integers below
  \<open>2^53\<close> and its product with 100.
\<close>

definition ilog2 :: "rat \<Rightarrow> int" where
  "ilog2 x =
     (let (p, q) = quotient_of x; d = bitlen p - bitlen q
      in if 2 powi d \<le> x then d else d - 1)"

definition rne :: "rat \<Rightarrow> int" where
  "rne y =
     (let f = \<lfloor>y\<rfloor>; r = y - of_int f
      in if r < 1 / 2 then f
         else if 1 / 2 < r then f + 1
         else if even f then f else f + 1)"

definition fl :: "rat \<Rightarrow> rat" where
  "fl x =
     (if x = 0 then 0
      else (let u = 2 powi (ilog2 \<bar>x\<bar> - 52) in of_int (rne (x / u)) * u))"

text \<open>\<open>Math.round\<close> is \<open>floor(x + 0.5)\<close>, computed exactly: a tie goes up.\<close>

definition mathRound :: "rat \<Rightarrow> int" where
  "mathRound x = \<lfloor>x + 1 / 2\<rfloor>"

text \<open>
  \<open>Math.round(a / b)\<close> for integers: one division, rounded to a double, then
  \<open>Math.round\<close>. Every call site tests the divisor first; a zero divisor (an infinity or
  \<open>NaN\<close> in the source) is \<open>NaN\<close> here and is never reached.
\<close>

fun mathRoundDiv :: "jsnum \<Rightarrow> jsnum \<Rightarrow> jsnum" where
  "mathRoundDiv (Num a) (Num b) = (if b = 0 then NaN else Num (mathRound (fl (of_int a / of_int b))))"
| "mathRoundDiv a b = NaN"

text \<open>
  \<open>Math.round((a / m) * 100)\<close> for integers: the quotient is rounded to a double, its
  product with 100 is rounded again, and \<open>Math.round\<close> takes the result. \<open>pct a m\<close> is that
  integer for a divisor other than 0.
\<close>

definition pct :: "int \<Rightarrow> int \<Rightarrow> int" where
  "pct a m = mathRound (fl (fl (of_int a / of_int m) * 100))"

fun mathRoundPercent :: "jsnum \<Rightarrow> jsnum \<Rightarrow> jsnum" where
  "mathRoundPercent (Num a) (Num m) = (if m = 0 then NaN else Num (pct a m))"
| "mathRoundPercent a m = NaN"

text \<open>
  What the run-time system supplies beyond this model: \<open>dateHours v\<close> stands for
  \<open>new Date(v).getHours()\<close> in the time zone of the process (an hour from 0 to 23, or
  \<open>NaN\<close> for a date that does not parse), and \<open>upperOutsideAscii s\<close> for \<open>s.toUpperCase()\<close>
  on a string that holds a character outside ASCII, where the Unicode tables decide
  (the long s, for one, becomes \<open>S\<close>). Every property below holds for any such functions.
\<close>

record runtime =
  dateHours :: "jsval \<Rightarrow> jsnum"
  upperOutsideAscii :: "string \<Rightarrow> string"

text \<open>
  Strings: \<open>toUpperCase\<close>, \<open>includes\<close>, \<open>split\<close> on one character. On a string of ASCII
  characters \<open>toUpperCase\<close> turns the letters \<open>a\<close> to \<open>z\<close> into \<open>A\<close> to \<open>Z\<close> and keeps the rest.
\<close>

definition isAscii :: "char \<Rightarrow> bool" where
  "isAscii c = ((of_char c :: nat) < 128)"

definition upperChar :: "char \<Rightarrow> char" where
  "upperChar c =
     (if 97 \<le> (of_char c :: nat) \<and> (of_char c :: nat) \<le> 122
      then char_of ((of_char c :: nat) - 32) else c)"

definition toUpperCase :: "runtime \<Rightarrow> string \<Rightarrow> string" where
  "toUpperCase rt s = (if list_all isAscii s then map upperChar s else upperOutsideAscii rt s)"

fun startsWith :: "string \<Rightarrow> string \<Rightarrow> bool" where
  "startsWith s [] = True"
| "startsWith [] (n # ns) = False"
| "startsWith (c # cs) (n # ns) = (c = n \<and> startsWith cs ns)"

fun includes_str :: "string \<Rightarrow> string \<Rightarrow> bool" where
  "includes_str [] n = (n = [])"
| "includes_str (c # cs) n = (startsWith (c # cs) n \<or> includes_str cs n)"

fun splitOn :: "char \<Rightarrow> string \<Rightarrow> string list" where
  "splitOn d [] = [[]]"
| "splitOn d (c # cs) =
     (case splitOn d cs of
        [] \<Rightarrow> (if c = d then [[], []] else [[c]])
      | p # ps \<Rightarrow> (if c = d then [] # p # ps else (c # p) # ps))"

text \<open>
  \<open>parseInt\<close>: leading white space, an optional sign, then the longest run of digits
  (hexadecimal after \<open>0x\<close>), \<open>NaN\<close> when there is none. A number is its own value; an
  array is read through its string, which starts with the string of its first element;
  every other value reads as text that holds no digit.
\<close>

definition isSpace :: "char \<Rightarrow> bool" where
  "isSpace c = ((of_char c :: nat) = 32 \<or> (9 \<le> (of_char c :: nat) \<and> (of_char c :: nat) \<le> 13))"

definition digitVal :: "nat \<Rightarrow> char \<Rightarrow> nat option" where
  "digitVal radix c =
     (let n = (of_char c :: nat);
          v = (if 48 \<le> n \<and> n \<le> 57 then Some (n - 48)
               else if 97 \<le> n \<and> n \<le> 102 then Some (n - 87)
               else if 65 \<le> n \<and> n \<le> 70 then Some (n - 55)
               else None)
      in case v of None \<Rightarrow> None | Some d \<Rightarrow> (if d < radix then Some d else None))"

fun readDigits :: "nat \<Rightarrow> string \<Rightarrow> nat option \<Rightarrow> nat option" where
  "readDigits radix [] acc = acc"
| "readDigits radix (c # cs) acc =
     (case digitVal radix c of
        None \<Rightarrow> acc
      | Some d \<Rightarrow> readDigits radix cs (Some ((case acc of None \<Rightarrow> 0 | Some a \<Rightarrow> a) * radix + d)))"

definition readUnsigned :: "string \<Rightarrow> nat option" where
  "readUnsigned s =
     (if startsWith s ''0x'' \<or> startsWith s ''0X''
      then readDigits 16 (drop 2 s) None
      else readDigits 10 s None)"

definition parseIntStr :: "string \<Rightarrow> jsnum" where
  "parseIntStr s =
     (let t = dropWhile isSpace s;
          neg = startsWith t ''-'';
          u = (if neg \<or> startsWith t ''+'' then drop 1 t else t)
      in case readUnsigned u of
           None \<Rightarrow> NaN
         | Some n \<Rightarrow> Num (if neg then - int n else int n))"

fun parseInt :: "jsval \<Rightarrow> jsnum" where
  "parseInt (JNumber x) = x"
| "parseInt (JStr s) = parseIntStr s"
| "parseInt (JArr []) = NaN"
| "parseInt (JArr (x # xs)) = parseInt x"
| "parseInt JUndefined = NaN"
| "parseInt JNull = NaN"
| "parseInt (JBool b) = NaN"
| "parseInt (JObj kvs) = NaN"

fun jsLess :: "jsnum \<Rightarrow> jsnum \<Rightarrow> bool" where
  "jsLess (Num a) (Num b) = (a < b)"
| "jsLess a b = False"

section \<open>API-55PBX: the metrics client and the KPI aggregator\<close>

record config55 =
  apiUrl :: string
  token :: string

definition isConfigured :: "config55 \<Rightarrow> bool" where
  "isConfigured config = (apiUrl config \<noteq> [] \<and> token config \<noteq> [])"

text \<open>
  What one request to the provider ends in: a response with its status and parsed body,
  or no response at all. With \<open>validateStatus: status < 500\<close> the client resolves below
  500 and rejects from 500 on.
\<close>

datatype http_outcome = HttpResponse nat jsval | NetworkFailure string

definition axiosGet :: "http_outcome \<Rightarrow> jserror + (nat \<times> jsval)" where
  "axiosGet outcome =
     (case outcome of
        NetworkFailure m \<Rightarrow> Inl (AxiosError None m)
      | HttpResponse status body \<Rightarrow>
          (if status < 500 then Inr (status, body)
           else Inl (AxiosError (Some status) ''Request failed'')))"

text \<open>\<open>fetchTodayCalls\<close>: \<open>null\<close> when not configured, on any thrown error, on a status from
  400 on and on a falsy body; the body otherwise.\<close>

definition fetchTodayCalls :: "config55 \<Rightarrow> http_outcome \<Rightarrow> jsval" where
  "fetchTodayCalls config outcome =
     (if \<not> isConfigured config then JNull
      else case axiosGet outcome of
             Inl e \<Rightarrow> JNull
           | Inr (status, data) \<Rightarrow>
               (if status \<ge> 400 then JNull
                else if \<not> truthy data then JNull
                else data))"

datatype call_class = Answered | Abandoned | RetainedUra | Other

text \<open>\<open>(callData.call_status || callData.status || '').toUpperCase()\<close>: reading a property
  of \<open>null\<close> throws, and so does \<open>toUpperCase\<close> on a truthy value that is not a string.\<close>

definition statusText :: "runtime \<Rightarrow> jsval \<Rightarrow> jserror + string" where
  "statusText rt callData =
     (case getProp callData ''call_status'' of
        Inl e \<Rightarrow> Inl e
      | Inr a \<Rightarrow>
          (case jsOr (jsOr a (propOf callData ''status'')) (JStr []) of
             JStr s \<Rightarrow> Inr (toUpperCase rt s)
           | v \<Rightarrow> Inl (TypeError ''toUpperCase is not a function'')))"

definition classifyCallStatus :: "runtime \<Rightarrow> jsval \<Rightarrow> jserror + call_class" where
  "classifyCallStatus rt callData =
     (case statusText rt callData of
        Inl e \<Rightarrow> Inl e
      | Inr status \<Rightarrow>
          (let queue = jsOr (jsOr (propOf callData ''call_queue'') (propOf callData ''queue'')) (JStr []);
               answered = jsOr (propOf callData ''answered'') (propOf callData ''atendida'')
           in Inr
             (if answered = JBool True \<or> answered = JNumber (Num 1) \<or> answered = JStr ''1''
              then Answered
              else if includes_str status ''ANSWERED'' \<or> includes_str status ''ATENDIDA''
              then Answered
              else if includes_str status ''ABANDONED'' \<or> includes_str status ''ABANDONADA''
                      \<or> includes_str status ''NO ANSWER''
              then Abandoned
              else if includes_str status ''URA'' \<or> includes_str status ''IVR'' \<or> \<not> truthy queue
              then RetainedUra
              else Other)))"

text \<open>
  The KPI snapshot. \<open>peakHour\<close> is \<open>null\<close> or the hour with its count; the hour is kept as
  the number \<open>getHours()\<close> gave, which the source pads to the label \<open>HH:00\<close>. \<open>kpiError\<close> is
  the \<open>error\<close> member, present only in the snapshot of the \<open>catch\<close> block.
\<close>

record kpis =
  totalCalls :: jsnum
  answered :: jsnum
  abandoned :: jsnum
  retainedURA :: jsnum
  other :: jsnum
  peakHour :: "(jsnum \<times> nat) option"
  avgWaitTime :: jsnum
  lastUpdate :: int
  kpiError :: "string option"
  slaAttendance :: "jsval option"
  timeMediumDuration :: "jsval option"

definition zeroKPIs :: "int \<Rightarrow> string option \<Rightarrow> kpis" where
  "zeroKPIs now err =
     \<lparr> totalCalls = Num 0, answered = Num 0, abandoned = Num 0, retainedURA = Num 0,
       other = Num 0, peakHour = None, avgWaitTime = Num 0, lastUpdate = now,
       kpiError = err, slaAttendance = None, timeMediumDuration = None \<rparr>"

text \<open>The aggregate response: three named counters and the wait as \<open>HH:MM:SS\<close>.\<close>

definition waitSeconds :: "jsval \<Rightarrow> jserror + jsnum" where
  "waitSeconds waitTimeStr =
     (case waitTimeStr of
        JStr s \<Rightarrow>
          (case splitOn CHR '':'' s of
             [h, m, sec] \<Rightarrow>
               Inr (jsAdd (jsAdd (jsMul (parseIntStr h) (Num 3600)) (jsMul (parseIntStr m) (Num 60)))
                      (parseIntStr sec))
           | waitParts \<Rightarrow> Inr (Num 0))
      | v \<Rightarrow> Inl (TypeError ''waitTimeStr.split is not a function''))"

definition aggregateKPIs :: "jsval \<Rightarrow> int \<Rightarrow> jserror + kpis" where
  "aggregateKPIs data now =
     (let atendidas = parseInt (jsOr (propOf data ''totalCallAttendedReceptive'') (JNumber (Num 0)));
          abandonadas = parseInt (jsOr (propOf data ''totalCallAbandonedQueue'') (JNumber (Num 0)));
          retidasURA = parseInt (jsOr (propOf data ''totalCallAbandonedURA'') (JNumber (Num 0)))
      in case waitSeconds (jsOr (propOf data ''timeMediumWaitingAttendance'') (JStr ''00:00:00'')) of
           Inl e \<Rightarrow> Inl e
         | Inr wait \<Rightarrow>
             Inr \<lparr> totalCalls = jsAdd (jsAdd atendidas abandonadas) retidasURA,
                   answered = atendidas, abandoned = abandonadas, retainedURA = retidasURA,
                   other = Num 0, peakHour = None, avgWaitTime = wait, lastUpdate = now,
                   kpiError = None,
                   slaAttendance = Some (jsOr (propOf data ''sla_attendance'') (JStr ''0%'')),
                   timeMediumDuration =
                     Some (jsOr (propOf data ''timeMediumDurationCall'') (JStr ''00:00:00'')) \<rparr>)"

text \<open>The list of calls: the counters of the \<open>forEach\<close> loop.\<close>

record tally =
  nAnswered :: nat
  nAbandoned :: nat
  nRetainedURA :: nat
  nOther :: nat
  totalWaitTime :: jsnum
  hourCounts :: "(jsnum \<times> nat) list"

definition emptyTally :: tally where
  "emptyTally = \<lparr> nAnswered = 0, nAbandoned = 0, nRetainedURA = 0, nOther = 0,
                    totalWaitTime = Num 0, hourCounts = [] \<rparr>"

definition countClass :: "call_class \<Rightarrow> tally \<Rightarrow> tally" where
  "countClass c t =
     (case c of
        Answered \<Rightarrow> t\<lparr>nAnswered := nAnswered t + 1\<rparr>
      | Abandoned \<Rightarrow> t\<lparr>nAbandoned := nAbandoned t + 1\<rparr>
      | RetainedUra \<Rightarrow> t\<lparr>nRetainedURA := nRetainedURA t + 1\<rparr>
      | Other \<Rightarrow> t\<lparr>nOther := nOther t + 1\<rparr>)"

definition bumpHour :: "jsnum \<Rightarrow> (jsnum \<times> nat) list \<Rightarrow> (jsnum \<times> nat) list" where
  "bumpHour hour hc = AList.update hour ((case map_of hc hour of None \<Rightarrow> 0 | Some c \<Rightarrow> c) + 1) hc"

text \<open>One turn of the loop; the hour of the call comes from \<open>dateHours\<close>.\<close>

definition tallyCall :: "runtime \<Rightarrow> jsval \<Rightarrow> tally \<Rightarrow> jserror + tally" where
  "tallyCall rt call t =
     (case classifyCallStatus rt call of
        Inl e \<Rightarrow> Inl e
      | Inr classification \<Rightarrow>
          (let t1 = countClass classification t;
               waitTime = parseInt (jsOr (jsOr (jsOr (propOf call ''call_time_waiting'')
                            (propOf call ''wait_time'')) (propOf call ''tempo_espera'')) (JNumber (Num 0)));
               callDate = jsOr (jsOr (propOf call ''call_date'') (propOf call ''date'')) (propOf call ''data'')
           in Inr (t1\<lparr> totalWaitTime := jsAdd (totalWaitTime t1) waitTime,
                        hourCounts := bumpHour (dateHours rt callDate) (hourCounts t1) \<rparr>)))"

fun tallyCalls :: "runtime \<Rightarrow> jsval list \<Rightarrow> tally \<Rightarrow> jserror + tally" where
  "tallyCalls rt [] t = Inr t"
| "tallyCalls rt (call # calls) t =
     (case tallyCall rt call t of
        Inl e \<Rightarrow> Inl e
      | Inr t' \<Rightarrow> tallyCalls rt calls t')"

text \<open>The peak: the first hour, in insertion order, whose count beats every earlier one.\<close>

definition findPeak :: "(jsnum \<times> nat) list \<Rightarrow> (jsnum \<times> nat) option" where
  "findPeak hc =
     (case foldl (\<lambda>(peakHour, peakCount) (hour, n).
                    if n > peakCount then (Some hour, n) else (peakHour, peakCount))
                 (None, 0) hc of
        (None, peakCount) \<Rightarrow> None
      | (Some hour, peakCount) \<Rightarrow> Some (hour, peakCount))"

definition listKPIs :: "runtime \<Rightarrow> jsval list \<Rightarrow> int \<Rightarrow> jserror + kpis" where
  "listKPIs rt calls now =
     (case tallyCalls rt calls emptyTally of
        Inl e \<Rightarrow> Inl e
      | Inr t \<Rightarrow>
          Inr \<lparr> totalCalls = Num (int (length calls)),
                answered = Num (int (nAnswered t)), abandoned = Num (int (nAbandoned t)),
                retainedURA = Num (int (nRetainedURA t)), other = Num (int (nOther t)),
                peakHour = findPeak (hourCounts t),
                avgWaitTime = (if length calls > 0
                               then mathRoundDiv (totalWaitTime t) (Num (int (length calls)))
                               else Num 0),
                lastUpdate = now, kpiError = None,
                slaAttendance = None, timeMediumDuration = None \<rparr>)"

text \<open>\<open>calculateDayKPIs\<close>: the body of the \<open>try\<close>, then the function with its \<open>catch\<close>.\<close>

definition calculateDayKPIs_try ::
  "config55 \<Rightarrow> http_outcome \<Rightarrow> runtime \<Rightarrow> int \<Rightarrow> jserror + kpis" where
  "calculateDayKPIs_try config outcome rt now =
     (let data = fetchTodayCalls config outcome
      in if \<not> truthy data \<or> data = JArr [] then Inr (zeroKPIs now None)
         else case data of
                JArr calls \<Rightarrow> listKPIs rt calls now
              | v \<Rightarrow> aggregateKPIs data now)"

definition calculateDayKPIs ::
  "config55 \<Rightarrow> http_outcome \<Rightarrow> runtime \<Rightarrow> int \<Rightarrow> jserror + kpis" where
  "calculateDayKPIs config outcome rt now =
     (case calculateDayKPIs_try config outcome rt now of
        Inl e \<Rightarrow> Inr (zeroKPIs now (Some (message e)))
      | Inr k \<Rightarrow> Inr k)"

subsection \<open>What the classification is measured against\<close>

text \<open>
  A call record has a textual status: the record is an object (anything but \<open>null\<close> and
  \<open>undefined\<close>) whose \<open>call_status || status\<close> is absent, falsy or a string. The markers and
  the flag are the tests of the classification, named; \<open>firstMatch\<close> is their order of
  precedence; \<open>countOf rt k\<close> counts the records of a list that are classified \<open>k\<close>.
\<close>

definition wellFormedCall :: "jsval \<Rightarrow> bool" where
  "wellFormedCall callData =
     (callData \<noteq> JNull \<and> callData \<noteq> JUndefined
      \<and> (case jsOr (jsOr (propOf callData ''call_status'') (propOf callData ''status'')) (JStr []) of
            JStr s \<Rightarrow> True
          | v \<Rightarrow> False))"

definition answeredFlag :: "jsval \<Rightarrow> bool" where
  "answeredFlag callData =
     (let a = jsOr (propOf callData ''answered'') (propOf callData ''atendida'')
      in a = JBool True \<or> a = JNumber (Num 1) \<or> a = JStr ''1'')"

definition answeredMarker :: "string \<Rightarrow> bool" where
  "answeredMarker s = (includes_str s ''ANSWERED'' \<or> includes_str s ''ATENDIDA'')"

definition abandonedMarker :: "string \<Rightarrow> bool" where
  "abandonedMarker s =
     (includes_str s ''ABANDONED'' \<or> includes_str s ''ABANDONADA'' \<or> includes_str s ''NO ANSWER'')"

definition ivrMarker :: "string \<Rightarrow> bool" where
  "ivrMarker s = (includes_str s ''URA'' \<or> includes_str s ''IVR'')"

definition emptyQueue :: "jsval \<Rightarrow> bool" where
  "emptyQueue callData =
     (\<not> truthy (jsOr (jsOr (propOf callData ''call_queue'') (propOf callData ''queue'')) (JStr [])))"

definition firstMatch :: "jsval \<Rightarrow> string \<Rightarrow> call_class" where
  "firstMatch callData s =
     (if answeredFlag callData then Answered
      else if answeredMarker s then Answered
      else if abandonedMarker s then Abandoned
      else if ivrMarker s \<or> emptyQueue callData then RetainedUra
      else Other)"

definition countOf :: "runtime \<Rightarrow> call_class \<Rightarrow> jsval list \<Rightarrow> nat" where
  "countOf rt k calls = length (filter (\<lambda>call. classifyCallStatus rt call = Inr k) calls)"

subsection \<open>Historical data\<close>

text \<open>
  \<open>fetchDayData\<close>: the KPIs of one past day, or \<open>null\<close>: when not configured, when the
  request throws, and on a falsy body. A day is named by its number; \<open>date\<close> is the day
  the record is for.
\<close>

record day_data =
  date :: int
  atendidas :: jsnum
  abandonadas :: jsnum
  retidasURA :: jsnum
  total :: jsnum

definition fetchDayData :: "config55 \<Rightarrow> http_outcome \<Rightarrow> int \<Rightarrow> day_data option" where
  "fetchDayData config outcome day =
     (if \<not> isConfigured config then None
      else case axiosGet outcome of
             Inl e \<Rightarrow> None
           | Inr (status, data) \<Rightarrow>
               (if \<not> truthy data then None
                else
                  (let a = parseInt (jsOr (propOf data ''totalCallAttendedReceptive'') (JNumber (Num 0)));
                       b = parseInt (jsOr (propOf data ''totalCallAbandonedQueue'') (JNumber (Num 0)));
                       u = parseInt (jsOr (propOf data ''totalCallAbandonedURA'') (JNumber (Num 0)))
                   in Some \<lparr> date = day, atendidas = a, abandonadas = b, retidasURA = u,
                             total = jsAdd (jsAdd a b) u \<rparr>)))"

text \<open>
  The loop of \<open>fetchHistoricalData\<close>, \<open>for (let i = 1; i <= days; i++)\<close>: day \<open>hoje - i\<close> is
  fetched and pushed when it is not \<open>null\<close>. \<open>replies i\<close> is what the provider answers to
  the request of turn \<open>i\<close>.
\<close>

function fetchLoop ::
  "config55 \<Rightarrow> (int \<Rightarrow> http_outcome) \<Rightarrow> int \<Rightarrow> int \<Rightarrow> int \<Rightarrow> day_data list \<Rightarrow> day_data list" where
  "fetchLoop config replies hoje days i historico =
     (if i \<le> days
      then fetchLoop config replies hoje days (i + 1)
             (case fetchDayData config (replies i) (hoje - i) of
                None \<Rightarrow> historico
              | Some dadosDia \<Rightarrow> historico @ [dadosDia])
      else historico)"
  by pat_completeness auto
termination
  by (relation "measure (\<lambda>(config, replies, hoje, days, i, historico). nat (days + 1 - i))") auto

declare fetchLoop.simps [simp del]

text \<open>The days of the window that yield data, in the order they are asked for.\<close>

definition successfulDays :: "config55 \<Rightarrow> (int \<Rightarrow> http_outcome) \<Rightarrow> int \<Rightarrow> int \<Rightarrow> day_data list" where
  "successfulDays config replies hoje days =
     List.map_filter (\<lambda>i. fetchDayData config (replies i) (hoje - i)) [1..days]"

record medias_t =
  mediaAtendidas :: jsnum
  mediaAbandonadas :: jsnum
  mediaRetidasURA :: jsnum
  mediaTotal :: jsnum

record historical =
  dias :: nat
  historico :: "day_data list"
  medias :: medias_t
  histLastUpdate :: int

definition soma :: "(day_data \<Rightarrow> jsnum) \<Rightarrow> day_data list \<Rightarrow> jsnum" where
  "soma f hs = foldl (\<lambda>sum d. jsAdd sum (f d)) (Num 0) hs"

definition fetchHistoricalData ::
  "config55 \<Rightarrow> (int \<Rightarrow> http_outcome) \<Rightarrow> int \<Rightarrow> int \<Rightarrow> int \<Rightarrow> historical option" where
  "fetchHistoricalData config replies hoje days now =
     (let hs = fetchLoop config replies hoje days 1 []
      in if length hs = 0 then None
         else Some \<lparr> dias = length hs, historico = hs,
                     medias = \<lparr> mediaAtendidas = mathRoundDiv (soma atendidas hs) (Num (int (length hs))),
                                mediaAbandonadas = mathRoundDiv (soma abandonadas hs) (Num (int (length hs))),
                                mediaRetidasURA = mathRoundDiv (soma retidasURA hs) (Num (int (length hs))),
                                mediaTotal = mathRoundDiv (soma total hs) (Num (int (length hs))) \<rparr>,
                     histLastUpdate = now \<rparr>)"

subsection \<open>Level classification\<close>

text \<open>
  The levels \<open>indefinido\<close>, \<open>Abaixo do comum\<close>, \<open>Medio\<close>, \<open>Alto\<close>, \<open>Altissimo\<close> and their
  indicator symbols (white, red, yellow and green circle, fire). \<open>descricao\<close> is the text
  \<open>p% da media (esperado: m)\<close>, kept as the two numbers it prints; the undefined level
  has none.
\<close>

datatype nivel_t = Indefinido | AbaixoDoComum | Medio | Alto | Altissimo

datatype emoji_t = WhiteCircle | RedCircle | YellowCircle | GreenCircle | Fire

record classificacao =
  nivel :: nivel_t
  emoji :: emoji_t
  percentual :: jsnum
  descricao :: "(jsnum \<times> jsnum) option"

definition classificarNivel :: "jsnum \<Rightarrow> jsnum \<Rightarrow> classificacao" where
  "classificarNivel valorAtual media =
     (if media = Num 0
      then \<lparr> nivel = Indefinido, emoji = WhiteCircle, percentual = Num 0, descricao = None \<rparr>
      else
        (let p = mathRoundPercent valorAtual media
         in if jsLess p (Num 70)
            then \<lparr> nivel = AbaixoDoComum, emoji = RedCircle, percentual = p, descricao = Some (p, media) \<rparr>
            else if jsLess p (Num 100)
            then \<lparr> nivel = Medio, emoji = YellowCircle, percentual = p, descricao = Some (p, media) \<rparr>
            else if jsLess p (Num 130)
            then \<lparr> nivel = Alto, emoji = GreenCircle, percentual = p, descricao = Some (p, media) \<rparr>
            else \<lparr> nivel = Altissimo, emoji = Fire, percentual = p, descricao = Some (p, media) \<rparr>))"

text \<open>
  \<open>analisarDiaAtual\<close>: today's KPIs against the means of the last 15 days; without a
  history the comparison (\<open>analise\<close>) is \<open>null\<close> and \<open>erro\<close> is set. \<open>resumo\<close> is the one-line
  summary, kept as the classification of the total it prints.
\<close>

record niveis_t =
  nivelAtendidas :: classificacao
  nivelAbandonadas :: classificacao
  nivelRetidasURA :: classificacao
  nivelTotal :: classificacao

record analise_t =
  hojeKpis :: kpis
  historicoDe :: "historical option"
  analise :: "niveis_t option"
  erro :: bool
  resumo :: "classificacao option"

definition analisarDiaAtual ::
  "config55 \<Rightarrow> http_outcome \<Rightarrow> (int \<Rightarrow> http_outcome) \<Rightarrow> runtime \<Rightarrow> int \<Rightarrow> int
     \<Rightarrow> jserror + analise_t" where
  "analisarDiaAtual config outcome replies rt dia now =
     (case calculateDayKPIs config outcome rt now of
        Inl e \<Rightarrow> Inl e
      | Inr kpisHoje \<Rightarrow>
          (case fetchHistoricalData config replies dia 15 now of
             None \<Rightarrow>
               Inr \<lparr> hojeKpis = kpisHoje, historicoDe = None, analise = None, erro = True, resumo = None \<rparr>
           | Some h \<Rightarrow>
               (let a = \<lparr> nivelAtendidas = classificarNivel (answered kpisHoje) (mediaAtendidas (medias h)),
                          nivelAbandonadas = classificarNivel (abandoned kpisHoje) (mediaAbandonadas (medias h)),
                          nivelRetidasURA = classificarNivel (retainedURA kpisHoje) (mediaRetidasURA (medias h)),
                          nivelTotal = classificarNivel (totalCalls kpisHoje) (mediaTotal (medias h)) \<rparr>
                in Inr \<lparr> hojeKpis = kpisHoje, historicoDe = Some h, analise = Some a, erro = False,
                         resumo = Some (nivelTotal a) \<rparr>)))"

section \<open>DB-Reports: the day cache\<close>

text \<open>
  The folder \<open>DB.Reports\<close> holds, for a day, a file of calls and a file of metadata. A file
  of calls is text that \<open>JSON.parse\<close> rejects, or a JSON value. A metadata file is
  unreadable (\<open>JSON.parse\<close> rejects it, or it is \<open>null\<close>, so that reading \<open>expiresAt\<close> of
  it throws), or holds no date under \<open>expiresAt\<close> (\<open>new Date\<close> gives an invalid date, and
  every comparison with one is false), or is what \<open>updateMetadata\<close> writes. Instants are
  milliseconds of local time; the day of an instant names its files. The store is
  reliable: an operation fails only as the files present decide.
\<close>

datatype calls_file = CallsGarbage | CallsJson jsval

record metadata =
  createdAt :: int
  expiresAt :: int
  ttl :: int

datatype meta_file = MetaUnreadable | MetaInvalidDate | MetaJson metadata

record fs =
  callsFiles :: "int \<Rightarrow> calls_file option"
  metaFiles :: "int \<Rightarrow> meta_file option"

definition DEFAULT_TTL :: int where
  "DEFAULT_TTL = 90000"

definition dayOf :: "int \<Rightarrow> int" where
  "dayOf t = t div 86400000"

text \<open>\<open>JSON.parse(await fs.readFile(filePath))\<close> of the file of calls.\<close>

definition readCalls :: "fs \<Rightarrow> int \<Rightarrow> jserror + jsval" where
  "readCalls store day =
     (case callsFiles store day of
        None \<Rightarrow> Inl (OtherError ''ENOENT: no such file or directory'')
      | Some CallsGarbage \<Rightarrow> Inl (OtherError ''Unexpected token in JSON'')
      | Some (CallsJson v) \<Rightarrow> Inr v)"

text \<open>\<open>updateMetadata\<close>: the metadata of the day is overwritten; an error is ignored.\<close>

definition updateMetadata :: "int \<Rightarrow> fs \<Rightarrow> fs" where
  "updateMetadata now store =
     store\<lparr> metaFiles := (metaFiles store)(dayOf now \<mapsto>
        MetaJson \<lparr> createdAt = now, expiresAt = now + DEFAULT_TTL * 1000, ttl = DEFAULT_TTL \<rparr>) \<rparr>"

text \<open>
  \<open>addCall\<close>: the list of the day is read (a missing or unparsable file is the empty
  list), the call is pushed with its \<open>timestamp\<close>, the file is written and the metadata
  refreshed. \<open>push\<close> throws when the file holds JSON that is not an array; the \<open>catch\<close>
  returns \<open>false\<close>. \<open>callData\<close> is the members of the call object.
\<close>

definition addCall :: "(string \<times> jsval) list \<Rightarrow> int \<Rightarrow> fs \<Rightarrow> fs \<times> bool" where
  "addCall callData now store =
     (let calls = (case readCalls store (dayOf now) of Inl e \<Rightarrow> JArr [] | Inr v \<Rightarrow> v)
      in case calls of
           JArr xs \<Rightarrow>
             (let written = store\<lparr> callsFiles := (callsFiles store)(dayOf now \<mapsto>
                    CallsJson (JArr (xs @ [JObj (AList.update ''timestamp'' (JNumber (Num now)) callData)]))) \<rparr>
              in (updateMetadata now written, True))
         | v \<Rightarrow> (store, False))"

text \<open>The inner \<open>try\<close> of \<open>hasCache\<close>: the expiry read from the metadata of the day.\<close>

definition readExpiry :: "fs \<Rightarrow> int \<Rightarrow> jserror + int option" where
  "readExpiry store day =
     (case metaFiles store day of
        None \<Rightarrow> Inl (OtherError ''ENOENT: no such file or directory'')
      | Some MetaUnreadable \<Rightarrow> Inl (OtherError ''Unexpected token in JSON'')
      | Some MetaInvalidDate \<Rightarrow> Inr None
      | Some (MetaJson m) \<Rightarrow> Inr (Some (expiresAt m)))"

definition unlinkBoth :: "int \<Rightarrow> fs \<Rightarrow> fs" where
  "unlinkBoth day store =
     store\<lparr> callsFiles := (callsFiles store)(day := None),
            metaFiles := (metaFiles store)(day := None) \<rparr>"

text \<open>
  \<open>hasCache\<close>: \<open>false\<close> when the file of calls is missing (\<open>fs.access\<close> throws); \<open>true\<close> when
  the metadata cannot be read; otherwise the expiry is compared with the clock, and an
  expired day loses both files.
\<close>

definition hasCache :: "int \<Rightarrow> int \<Rightarrow> fs \<Rightarrow> fs \<times> bool" where
  "hasCache day now store =
     (case callsFiles store day of
        None \<Rightarrow> (store, False)
      | Some f \<Rightarrow>
          (case readExpiry store day of
             Inl e \<Rightarrow> (store, True)
           | Inr None \<Rightarrow> (store, True)
           | Inr (Some expires) \<Rightarrow>
               (if expires < now then (unlinkBoth day store, False) else (store, True))))"

section \<open>API-WHATSAPP: the dispatcher\<close>

record configWA =
  waApiUrl :: string
  destination :: string

definition isConfiguredWA :: "configWA \<Rightarrow> bool" where
  "isConfiguredWA config = (waApiUrl config \<noteq> [] \<and> destination config \<noteq> [])"

text \<open>
  The \<open>error\<close> of a result: \<open>API nao configurada\<close>, \<open>Sem dados de analise\<close>, or the message of
  the error that was caught.
\<close>

datatype wa_error = ApiNaoConfigurada | SemDadosDeAnalise | ErrorMessage string

record send_result =
  success :: bool
  responseData :: "jsval option"
  sendError :: "wa_error option"

definition sendOk :: "jsval \<Rightarrow> send_result" where
  "sendOk d = \<lparr> success = True, responseData = Some d, sendError = None \<rparr>"

definition sendFailed :: "wa_error \<Rightarrow> send_result" where
  "sendFailed e = \<lparr> success = False, responseData = None, sendError = Some e \<rparr>"

text \<open>The payload of \<open>/enviar-relatorio\<close>. \<open>x || 0\<close> on a number turns \<open>NaN\<close> into 0.\<close>

datatype periodo_t = Manha | Tarde

record fila =
  momento :: jsnum
  quantidadePessoas :: nat

record dados_relatorio =
  ligacoesRecebidas :: jsnum
  ligacoesAtendidas :: jsnum
  ligacoesAbandonadas :: jsnum
  periodo :: periodo_t
  dataRelatorio :: int
  filas :: "fila list"

record payload_t =
  jid :: string
  numero :: string
  dadosRelatorio :: dados_relatorio

definition orZero :: "jsnum \<Rightarrow> jsnum" where
  "orZero x = (if x = NaN then Num 0 else x)"

definition relatorioPayload :: "configWA \<Rightarrow> int \<Rightarrow> kpis \<Rightarrow> payload_t" where
  "relatorioPayload config now k =
     \<lparr> jid = destination config @ ''@s.whatsapp.net'',
       numero = destination config,
       dadosRelatorio =
         \<lparr> ligacoesRecebidas = orZero (totalCalls k),
           ligacoesAtendidas = orZero (answered k),
           ligacoesAbandonadas = orZero (abandoned k),
           periodo = (if (now mod 86400000) div 3600000 < 12 then Manha else Tarde),
           dataRelatorio = now div 86400000,
           filas = (case peakHour k of
                      None \<Rightarrow> []
                    | Some (hour, n) \<Rightarrow> [\<lparr> momento = hour, quantidadePessoas = n \<rparr>]) \<rparr> \<rparr>"

text \<open>The text of the comparison message, kept as the values it prints.\<close>

record analise_mensagem =
  msgEmoji :: emoji_t
  msgNivel :: nivel_t
  msgPercentual :: jsnum
  msgHoje :: "jsnum \<times> jsnum \<times> jsnum"
  msgMedias :: medias_t
  msgNiveis :: niveis_t
  msgDias :: nat

datatype mensagem_t = AnaliseMsg analise_mensagem | TextMsg string

text \<open>
  A request to the messaging API, and the state of the exchange: every \<open>api.post\<close> is
  logged with the clock at which it is made. \<open>respond\<close> is what the API does with a
  request: it answers with data or the call throws.
\<close>

datatype request = PostEnviarRelatorio payload_t | PostEnviar string mensagem_t

record wa_state =
  posted :: "(int \<times> request) list"
  waClock :: int

definition apiPost ::
  "(request \<Rightarrow> jserror + jsval) \<Rightarrow> request \<Rightarrow> wa_state \<Rightarrow> (jserror + jsval) \<times> wa_state" where
  "apiPost respond req st = (respond req, st\<lparr> posted := posted st @ [(waClock st, req)] \<rparr>)"

definition sendMessage ::
  "configWA \<Rightarrow> (request \<Rightarrow> jserror + jsval) \<Rightarrow> mensagem_t \<Rightarrow> string option \<Rightarrow> wa_state
     \<Rightarrow> send_result \<times> wa_state" where
  "sendMessage config respond mensagem numeroArg st =
     (let targetNumber = (case numeroArg of
                            None \<Rightarrow> destination config
                          | Some n \<Rightarrow> (if n \<noteq> [] then n else destination config))
      in if \<not> isConfiguredWA config then (sendFailed ApiNaoConfigurada, st)
         else case apiPost respond (PostEnviar targetNumber mensagem) st of
                (Inr d, st') \<Rightarrow> (sendOk d, st')
              | (Inl e, st') \<Rightarrow> (sendFailed (ErrorMessage (message e)), st'))"

text \<open>
  \<open>sendAnaliseHistorica\<close>: nothing is sent without a classification; building the text
  reads \<open>historico.medias\<close>, which throws when the history is \<open>null\<close>; then the 2 second
  pause and the send.
\<close>

definition analiseMensagem :: "analise_t \<Rightarrow> niveis_t \<Rightarrow> historical \<Rightarrow> analise_mensagem" where
  "analiseMensagem a niveis h =
     \<lparr> msgEmoji = emoji (nivelTotal niveis), msgNivel = nivel (nivelTotal niveis),
       msgPercentual = orZero (percentual (nivelTotal niveis)),
       msgHoje = (answered (hojeKpis a), abandoned (hojeKpis a), retainedURA (hojeKpis a)),
       msgMedias = medias h, msgNiveis = niveis, msgDias = dias h \<rparr>"

definition sendAnaliseHistorica ::
  "configWA \<Rightarrow> (request \<Rightarrow> jserror + jsval) \<Rightarrow> analise_t option \<Rightarrow> wa_state
     \<Rightarrow> (jserror + send_result) \<times> wa_state" where
  "sendAnaliseHistorica config respond analiseArg st =
     (case analiseArg of
        None \<Rightarrow> (Inr (sendFailed SemDadosDeAnalise), st)
      | Some a \<Rightarrow>
          (case analise a of
             None \<Rightarrow> (Inr (sendFailed SemDadosDeAnalise), st)
           | Some niveis \<Rightarrow>
               (case historicoDe a of
                  None \<Rightarrow> (Inl (TypeError ''Cannot read properties of null (reading medias)''), st)
                | Some h \<Rightarrow>
                    (let st1 = st\<lparr> waClock := waClock st + 2000 \<rparr>;
                         (result, st2) = sendMessage config respond
                                           (AnaliseMsg (analiseMensagem a niveis h)) None st1
                     in (Inr result, st2)))))"

text \<open>
  \<open>sendRelatorio\<close>: nothing when not configured; the report is posted; inside the same
  \<open>try\<close>, after the post has succeeded, the comparison follows when \<open>analise && analise.analise\<close>
  holds, and what it returns is dropped.
\<close>

definition hasAnalise :: "analise_t option \<Rightarrow> bool" where
  "hasAnalise analiseArg = (case analiseArg of None \<Rightarrow> False | Some a \<Rightarrow> analise a \<noteq> None)"

definition sendRelatorio ::
  "configWA \<Rightarrow> (request \<Rightarrow> jserror + jsval) \<Rightarrow> int \<Rightarrow> kpis \<Rightarrow> analise_t option \<Rightarrow> wa_state
     \<Rightarrow> send_result \<times> wa_state" where
  "sendRelatorio config respond now k analiseArg st =
     (if \<not> isConfiguredWA config then (sendFailed ApiNaoConfigurada, st)
      else case apiPost respond (PostEnviarRelatorio (relatorioPayload config now k)) st of
             (Inl e, st1) \<Rightarrow> (sendFailed (ErrorMessage (message e)), st1)
           | (Inr d, st1) \<Rightarrow>
               (if hasAnalise analiseArg
                then (case sendAnaliseHistorica config respond analiseArg st1 of
                        (Inl e, st2) \<Rightarrow> (sendFailed (ErrorMessage (message e)), st2)
                      | (Inr r, st2) \<Rightarrow> (sendOk d, st2))
                else (sendOk d, st1)))"

section \<open>CORE: the broadcaster\<close>

text \<open>
  An execution record, the events sent to the viewers, and the viewers: \<open>broadcast\<close>
  sends to every open connection and skips the others. The texts of the log lines are
  kept as the values they print.
\<close>

record execution =
  timestamp :: int
  execSuccess :: bool
  execKpis :: "kpis option"
  duration :: int
  messageId :: "jsval option"
  execError :: "wa_error option"

datatype level_t = Info | Success | ErrorLevel | Warning | EventLevel

datatype log_message =
    LogIniciando
  | LogKpisCalculados jsnum
  | LogBuscandoAnalise
  | LogEnviado int
  | LogErroEnviar "wa_error option"
  | LogErroExecucao string

datatype event =
    LogEvent log_message level_t
  | ExecutionComplete execution
  | ExecutionError execution
  | D0Update kpis

record client =
  isOpen :: bool
  received :: "event list"

definition broadcast :: "event \<Rightarrow> client list \<Rightarrow> client list" where
  "broadcast ev cs = map (\<lambda>c. if isOpen c then c\<lparr> received := received c @ [ev] \<rparr> else c) cs"

definition broadcastLog :: "log_message \<Rightarrow> level_t \<Rightarrow> client list \<Rightarrow> client list" where
  "broadcastLog m level cs = broadcast (LogEvent m level) cs"

section \<open>CORE: scheduler, execution history\<close>

text \<open>
  \<open>addToHistory\<close>: \<open>unshift\<close> puts the record first; beyond 50 entries \<open>pop\<close> drops the last.
  \<open>getHistory\<close> returns the list as it is.
\<close>

definition addToHistory :: "'e \<Rightarrow> 'e list \<Rightarrow> 'e list" where
  "addToHistory execution executionHistory =
     (let h = execution # executionHistory
      in if length h > 50 then butlast h else h)"

definition getHistory :: "'e list \<Rightarrow> 'e list" where
  "getHistory executionHistory = executionHistory"

text \<open>The history after recording the executions \<open>es\<close> in turn, starting from the empty list.\<close>

definition recordAll :: "'e list \<Rightarrow> 'e list" where
  "recordAll es = foldl (\<lambda>h e. addToHistory e h) [] es"

subsection \<open>Running a report\<close>

text \<open>
  The state of the scheduler, and what one run meets: the outcome of each awaited call
  (a value, or the error it throws) and the readings of the clock. \<open>endTime\<close> is the
  reading when the duration is taken, after the send or in the \<open>catch\<close>.
\<close>

record core_state =
  executionHistory :: "execution list"
  clients :: "client list"

record run_env =
  kpisStep :: "jserror + kpis"
  analiseStep :: "jserror + analise_t"
  sendStep :: "kpis \<Rightarrow> analise_t \<Rightarrow> jserror + send_result"
  startTime :: int
  endTime :: int
  stamp :: int

text \<open>The \<open>catch\<close> block of \<open>executeReport\<close>.\<close>

definition executeReport_catch :: "run_env \<Rightarrow> jserror \<Rightarrow> core_state \<Rightarrow> core_state \<times> (jserror + execution)" where
  "executeReport_catch env e st =
     (let execution = \<lparr> timestamp = stamp env, execSuccess = False, execKpis = None,
                         duration = endTime env - startTime env, messageId = None,
                         execError = Some (ErrorMessage (message e)) \<rparr>;
          st1 = st\<lparr> executionHistory := addToHistory execution (executionHistory st) \<rparr>;
          st2 = st1\<lparr> clients := broadcastLog (LogErroExecucao (message e)) ErrorLevel (clients st1) \<rparr>;
          st3 = st2\<lparr> clients := broadcast (ExecutionError execution) (clients st2) \<rparr>
      in (st3, Inr execution))"

definition executeReport :: "run_env \<Rightarrow> core_state \<Rightarrow> core_state \<times> (jserror + execution)" where
  "executeReport env st =
     (let st1 = st\<lparr> clients := broadcastLog LogIniciando Info (clients st) \<rparr>
      in case kpisStep env of
           Inl e \<Rightarrow> executeReport_catch env e st1
         | Inr k \<Rightarrow>
             (let st2 = st1\<lparr> clients := broadcastLog (LogKpisCalculados (totalCalls k)) Info (clients st1) \<rparr>;
                  st3 = st2\<lparr> clients := broadcastLog LogBuscandoAnalise Info (clients st2) \<rparr>
              in case analiseStep env of
                   Inl e \<Rightarrow> executeReport_catch env e st3
                 | Inr a \<Rightarrow>
                     (case sendStep env k a of
                        Inl e \<Rightarrow> executeReport_catch env e st3
                      | Inr result \<Rightarrow>
                          (let elapsed = endTime env - startTime env;
                               execution = \<lparr> timestamp = stamp env, execSuccess = success result,
                                              execKpis = Some k, duration = elapsed, messageId = None,
                                              execError = sendError result \<rparr>;
                               st4 = st3\<lparr> executionHistory := addToHistory execution (executionHistory st3) \<rparr>;
                               st5 = (if success result
                                      then st4\<lparr> clients := broadcast (ExecutionComplete execution)
                                                  (broadcastLog (LogEnviado elapsed) Success (clients st4)) \<rparr>
                                      else st4\<lparr> clients := broadcast (ExecutionError execution)
                                                  (broadcastLog (LogErroEnviar (sendError result)) ErrorLevel
                                                     (clients st4)) \<rparr>)
                           in (st5, Inr execution)))))"

text \<open>Whether a step of the run throws, and with which error.\<close>

definition throwsAt :: "run_env \<Rightarrow> jserror \<Rightarrow> bool" where
  "throwsAt env e =
     (case kpisStep env of
        Inl e1 \<Rightarrow> e1 = e
      | Inr k \<Rightarrow>
          (case analiseStep env of
             Inl e2 \<Rightarrow> e2 = e
           | Inr a \<Rightarrow> (case sendStep env k a of Inl e3 \<Rightarrow> e3 = e | Inr result \<Rightarrow> False)))"

subsection \<open>The next run\<close>

text \<open>
  \<open>Number\<close> on a part of a time: the empty text is 0 and a run of decimal digits is its
  value. Other text is \<open>NaN\<close> here; the source also reads white space, a sign, a fraction,
  an exponent and a radix prefix, none of which a time of the form \<open>HH:MM\<close> has.
\<close>

definition isDigit :: "char \<Rightarrow> bool" where
  "isDigit c = (48 \<le> (of_char c :: nat) \<and> (of_char c :: nat) \<le> 57)"

definition digitOf :: "char \<Rightarrow> nat" where
  "digitOf c = (of_char c :: nat) - 48"

definition toNumber :: "string \<Rightarrow> jsnum" where
  "toNumber s =
     (if list_all isDigit s then Num (int (foldl (\<lambda>a c. a * 10 + digitOf c) 0 s)) else NaN)"

text \<open>
  A date is an instant in milliseconds of local time (days of 24 hours: no daylight
  saving), or the invalid date, which \<open>setHours\<close> gives on \<open>NaN\<close> and which is not greater
  than any instant.
\<close>

datatype jsdate = DateMs int | InvalidDate

text \<open>\<open>const [hour, minute] = time.split(':').map(Number)\<close>, with \<open>minute || 0\<close>.\<close>

definition parseTime :: "string \<Rightarrow> jsnum \<times> jsnum" where
  "parseTime time =
     (case map toNumber (splitOn CHR '':'' time) of
        [] \<Rightarrow> (NaN, Num 0)
      | [hour] \<Rightarrow> (hour, Num 0)
      | hour # minute # rest \<Rightarrow> (hour, (if minute = NaN \<or> minute = Num 0 then Num 0 else minute)))"

text \<open>\<open>d.setHours(hour, minute, 0, 0)\<close> on the midnight \<open>d\<close>: hours and minutes beyond the day
  roll over.\<close>

definition setHours :: "int \<Rightarrow> jsnum \<times> jsnum \<Rightarrow> jsdate" where
  "setHours midnight hm =
     (case hm of
        (Num hour, Num minute) \<Rightarrow> DateMs (midnight + (hour * 60 + minute) * 60000)
      | nan \<Rightarrow> InvalidDate)"

definition isAfter :: "jsdate \<Rightarrow> int \<Rightarrow> bool" where
  "isAfter d now = (case d of DateMs t \<Rightarrow> t > now | InvalidDate \<Rightarrow> False)"

text \<open>The loop over the sorted times: the first one today that is after \<open>now\<close>.\<close>

fun firstAfter :: "int \<Rightarrow> int \<Rightarrow> string list \<Rightarrow> jsdate option" where
  "firstAfter today now [] = None"
| "firstAfter today now (time # later) =
     (let scheduled = setHours today (parseTime time)
      in if isAfter scheduled now then Some scheduled else firstAfter today now later)"

text \<open>
  \<open>getNextRun\<close>: \<open>sort()\<close> orders the times as text, in place, so the result comes with the
  sorted list. After the loop the first time is read for tomorrow; with no time at all
  \<open>scheduledTimes[0]\<close> is \<open>undefined\<close> and \<open>split\<close> throws.
\<close>

definition getNextRun :: "string list \<Rightarrow> int \<Rightarrow> (jserror + jsdate) \<times> string list" where
  "getNextRun scheduledTimes now =
     (let sorted = sort scheduledTimes;
          today = (now div 86400000) * 86400000
      in case firstAfter today now sorted of
           Some scheduled \<Rightarrow> (Inr scheduled, sorted)
         | None \<Rightarrow>
             (case sorted of
                [] \<Rightarrow> (Inl (TypeError ''Cannot read properties of undefined (reading split)''), sorted)
              | time # later \<Rightarrow> (Inr (setHours (today + 86400000) (parseTime time)), sorted)))"

text \<open>
  What the result is measured against: a time of the form \<open>HH:MM\<close>, zero-padded, from
  00:00 to 23:59, and the minute of the day it names.
\<close>

fun validHHMM :: "string \<Rightarrow> bool" where
  "validHHMM [h1, h2, c, m1, m2] =
     (isDigit h1 \<and> isDigit h2 \<and> c = CHR '':'' \<and> isDigit m1 \<and> isDigit m2
      \<and> digitOf h1 * 10 + digitOf h2 \<le> 23 \<and> digitOf m1 * 10 + digitOf m2 \<le> 59)"
| "validHHMM s = False"

fun minuteOfDay :: "string \<Rightarrow> int" where
  "minuteOfDay [h1, h2, c, m1, m2] =
     int ((digitOf h1 * 10 + digitOf h2) * 60 + digitOf m1 * 10 + digitOf m2)"
| "minuteOfDay s = 0"

text \<open>
  The next occurrence of one of the minutes \<open>ms\<close> of the day strictly after \<open>now\<close>: the
  earliest one left today, or the earliest of all tomorrow.
\<close>

definition nextOccurrence :: "int set \<Rightarrow> int \<Rightarrow> int" where
  "nextOccurrence ms now =
     (let today = (now div 86400000) * 86400000;
          left = {m \<in> ms. today + m * 60000 > now}
      in if left \<noteq> {} then today + Min left * 60000
         else today + 86400000 + Min ms * 60000)"

section \<open>Example inputs\<close>

text \<open>Concrete configurations, replies and records the examples below are run on.\<close>

definition cfgOk :: config55 where
  "cfgOk = \<lparr> apiUrl = ''https://provider'', token = ''secret'' \<rparr>"

definition threeDays :: "int \<Rightarrow> http_outcome" where
  "threeDays i =
     (if i = 1 then HttpResponse 200 (JObj [(''totalCallAttendedReceptive'', JNumber (Num 10))])
      else if i = 2 then NetworkFailure ''timeout''
      else HttpResponse 200 (JObj [(''totalCallAttendedReceptive'', JStr ''20'')]))"

definition threeDaysHistory :: historical where
  "threeDaysHistory =
     \<lparr> dias = 2,
       historico =
        [\<lparr>date = 99, atendidas = Num 10, abandonadas = Num 0, retidasURA = Num 0, total = Num 10\<rparr>,
         \<lparr>date = 97, atendidas = Num 20, abandonadas = Num 0, retidasURA = Num 0, total = Num 20\<rparr>],
       medias = \<lparr>mediaAtendidas = Num 15, mediaAbandonadas = Num 0, mediaRetidasURA = Num 0,
                  mediaTotal = Num 15\<rparr>,
       histLastUpdate = 0 \<rparr>"

definition notFound :: http_outcome where
  "notFound = HttpResponse 404 (JObj [(''error'', JStr ''Not Found'')])"

definition oneDayTwoRejected :: "int \<Rightarrow> http_outcome" where
  "oneDayTwoRejected i =
     (if i = 1 then HttpResponse 200 (JObj [(''totalCallAttendedReceptive'', JNumber (Num 30))])
      else notFound)"

definition rtNine :: runtime where
  "rtNine = \<lparr> dateHours = (\<lambda>v. Num 9), upperOutsideAscii = (\<lambda>s. s) \<rparr>"

definition flaggedCall :: jsval where
  "flaggedCall = JObj [(''call_status'', JNumber (Num 5)), (''answered'', JBool True)]"

definition exampleCalls :: "jsval list" where
  "exampleCalls =
     [JObj [(''call_status'', JStr ''Answered''), (''call_queue'', JStr ''vendas'')],
      JObj [(''status'', JStr ''no answer''), (''queue'', JStr ''vendas'')],
      JObj [(''status'', JStr ''ringing'')],
      JObj [(''status'', JStr ''ringing''), (''queue'', JStr ''vendas'')]]"

definition emptyStore :: fs where
  "emptyStore = \<lparr> callsFiles = (\<lambda>d. None), metaFiles = (\<lambda>d. None) \<rparr>"

definition orphanStore :: fs where
  "orphanStore = \<lparr> callsFiles = (\<lambda>d. if d = 3 then Some (CallsJson (JArr [])) else None),
                     metaFiles = (\<lambda>d. None) \<rparr>"

definition cfgWA :: configWA where
  "cfgWA = \<lparr> waApiUrl = ''https://messages'', destination = ''5511999990000'' \<rparr>"

definition exampleNiveis :: niveis_t where
  "exampleNiveis =
     \<lparr> nivelAtendidas = classificarNivel (Num 0) (Num 15),
       nivelAbandonadas = classificarNivel (Num 0) (Num 0),
       nivelRetidasURA = classificarNivel (Num 0) (Num 0),
       nivelTotal = classificarNivel (Num 0) (Num 15) \<rparr>"

definition exampleAnalise :: analise_t where
  "exampleAnalise =
     \<lparr> hojeKpis = zeroKPIs 0 None, historicoDe = Some threeDaysHistory,
       analise = Some exampleNiveis, erro = False, resumo = Some (nivelTotal exampleNiveis) \<rparr>"

definition netDown :: "request \<Rightarrow> jserror + jsval" where
  "netDown req = Inl (AxiosError None ''timeout'')"

definition secondDown :: "request \<Rightarrow> jserror + jsval" where
  "secondDown req =
     (case req of
        PostEnviarRelatorio p \<Rightarrow> Inr (JObj [(''ok'', JBool True)])
      | PostEnviar n m \<Rightarrow> Inl (AxiosError (Some 503) ''Request failed''))"

definition idle :: wa_state where
  "idle = \<lparr> posted = [], waClock = 0 \<rparr>"

definition envThrow :: run_env where
  "envThrow = \<lparr> kpisStep = Inr (zeroKPIs 0 None), analiseStep = Inl (OtherError ''boom''),
                 sendStep = (\<lambda>k a. Inr (sendOk JNull)), startTime = 100, endTime = 350, stamp = 350 \<rparr>"

definition noViewers :: core_state where
  "noViewers = \<lparr> executionHistory = [], clients = [] \<rparr>"

section \<open>Verified properties\<close>

lemma addToHistory_take: "addToHistory e h = take 50 (e # take 50 h)" if "length h \<le> 50"
proof (cases "length h = 50")
  case True
  then have "butlast (e # h) = take 50 (e # h)"
    by (simp add: butlast_conv_take)
  with True show ?thesis
    by (simp add: addToHistory_def)
next
  case False
  with that show ?thesis
    by (simp add: addToHistory_def)
qed


lemma take_Cons_take: "take 50 (e # take 50 xs) = take 50 (e # xs)"
proof -
  have "take 50 (e # ys) = e # take 49 ys" for ys :: "'a list"
    by (simp add: take_Cons')
  then show ?thesis
    by (simp add: min_def)
qed

lemma recordAll_snoc: "recordAll (es @ [e]) = addToHistory e (recordAll es)"
  by (simp add: recordAll_def)

lemma recordAll_take: "recordAll es = take 50 (rev es)"
proof (induction es rule: rev_induct)
  case Nil
  show ?case by (simp add: recordAll_def)
next
  case (snoc e es)
  have "length (recordAll es) \<le> 50"
    by (simp add: snoc.IH)
  then have "recordAll (es @ [e]) = take 50 (e # take 50 (recordAll es))"
    by (simp add: recordAll_snoc addToHistory_take)
  also have "\<dots> = take 50 (e # rev es)"
    by (simp only: snoc.IH take_Cons_take)
  finally show ?case by simp
qed

text \<open>
  C6. The execution history is most-recent-first and never longer than 50: recording
  puts the new record first and, from a history of at most 50 records, keeps the first 50
  of the result (the oldest, last one is dropped when there were already 50). Starting
  empty, after recording \<open>es\<close> the history is the last 50 of them, newest first; after 60
  recorded executions exactly 50 remain.
\<close>

theorem execution_history_capped:
  fixes es :: "'e list"
  shows "getHistory (recordAll es) = take 50 (rev es)
   \<and> length (getHistory (recordAll es)) = min 50 (length es)
   \<and> (length es = 60 \<longrightarrow> length (getHistory (recordAll es)) = 50)
   \<and> (\<forall>(h :: 'e list) e. length h \<le> 50 \<longrightarrow>
         addToHistory e h = take 50 (e # h) \<and> hd (addToHistory e h) = e
         \<and> length (addToHistory e h) \<le> 50)"
proof -
  have "addToHistory e h = take 50 (e # h) \<and> hd (addToHistory e h) = e
        \<and> length (addToHistory e h) \<le> 50" if "length h \<le> 50" for h :: "'e list" and e
    using that by (simp add: addToHistory_take take_Cons_take take_Cons')
  then show ?thesis
    by (simp add: getHistory_def recordAll_take)
qed

theorem execution_history_capped_witness:
  "length [0..<60] = 60
   \<and> getHistory (recordAll [0..<60]) = rev [10..<60]
   \<and> length (getHistory (recordAll [0..<60])) = 50
   \<and> addToHistory (7::nat) [6, 5] = [7, 6, 5]"
proof -
  note th = execution_history_capped [of "[0..<60]"]
  have a: "take 50 (rev [0..<60]) = rev [10..<60]"
    by (simp add: take_rev drop_upt)
  have c: "length [6, 5 :: nat] \<le> 50"
    by simp
  from th have "\<forall>(h :: nat list) e. length h \<le> 50 \<longrightarrow>
      addToHistory e h = take 50 (e # h) \<and> hd (addToHistory e h) = e
      \<and> length (addToHistory e h) \<le> 50"
    by (elim conjE)
  then have "addToHistory (7::nat) [6, 5] = take 50 (7 # [6, 5])"
    using c by (elim allE impE conjE)
  then have b: "addToHistory (7::nat) [6, 5] = [7, 6, 5]"
    by simp
  from th have d: "getHistory (recordAll [0..<60]) = take 50 (rev [0..<60])"
    by (elim conjE)
  from th have e: "length [0..<60] = 60 \<longrightarrow> length (getHistory (recordAll [0..<60])) = 50"
    by (elim conjE)
  have f: "length [0..<60] = 60"
    by simp
  from e f have "length (getHistory (recordAll [0..<60])) = 50"
    by (rule mp)
  with a b d f show ?thesis
    by (simp only: simp_thms)
qed


subsection \<open>Rounding to doubles\<close>

text \<open>
  The model of the doubles: \<open>rne\<close> is within a half of its argument, \<open>ilog2\<close> is the binary
  exponent, so \<open>fl\<close> has a relative error of at most \<open>2^-53\<close>. The percentage
  \<open>Math.round((a / m) * 100)\<close> is therefore within a half of the exact \<open>a / m * 100\<close> for
  \<open>600 * |a| < 2^53\<close>, and equal to its rounding unless the exact value is a tie.
\<close>

lemma rne_error: "\<bar>of_int (rne y) - y\<bar> \<le> 1 / 2"
proof -
  have "of_int \<lfloor>y\<rfloor> \<le> y" "y < of_int \<lfloor>y\<rfloor> + 1"
    by linarith+
  then show ?thesis
    unfolding rne_def Let_def by (auto simp: abs_le_iff)
qed

lemma ilog2_le:
  assumes "0 < x"
  shows "2 powi (ilog2 x) \<le> x"
proof -
  obtain p q where pq: "quotient_of x = (p, q)"
    by (cases "quotient_of x")
  then have q: "0 < q" and x: "x = of_int p / of_int q"
    by (simp_all add: quotient_of_denom_pos quotient_of_div)
  from assms x q have p: "0 < p"
    by (simp add: zero_less_divide_iff)
  define d where "d = bitlen p - bitlen q"
  show ?thesis
  proof (cases "(2::rat) powi d \<le> x")
    case True
    then show ?thesis
      by (simp add: ilog2_def pq d_def [symmetric])
  next
    case False
    have bp: "1 \<le> bitlen p" and bq: "1 \<le> bitlen q"
      using p q bitlen_eq_zero_iff [of p] bitlen_eq_zero_iff [of q] bitlen_nonneg [of p] bitlen_nonneg [of q]
      by linarith+
    from bitlen_bounds [OF p] have "(2::int) ^ nat (bitlen p - 1) \<le> p"
      by simp
    then have "(of_int ((2::int) ^ nat (bitlen p - 1)) :: rat) \<le> of_int p"
      by (simp only: of_int_le_iff)
    then have lo: "(2::rat) powi (bitlen p - 1) \<le> of_int p"
      using bp by (simp add: power_int_def)
    from bitlen_bounds [OF q] have "q < (2::int) ^ nat (bitlen q)"
      by simp
    then have "(of_int q :: rat) < of_int ((2::int) ^ nat (bitlen q))"
      by (simp only: of_int_less_iff)
    then have hi: "of_int q < (2::rat) powi (bitlen q)"
      using bq by (simp add: power_int_def)
    have "(2::rat) powi (d - 1) = 2 powi (bitlen p - 1) / 2 powi (bitlen q)"
      by (simp add: d_def power_int_diff)
    also have "\<dots> \<le> of_int p / 2 powi (bitlen q)"
      using lo by (simp add: divide_right_mono)
    also have "\<dots> \<le> of_int p / of_int q"
      using hi p q by (simp add: frac_le)
    finally have "(2::rat) powi (d - 1) \<le> x"
      by (simp add: x)
    with False show ?thesis
      by (simp add: ilog2_def pq d_def [symmetric])
  qed
qed

lemma fl_error: "\<bar>fl x - x\<bar> \<le> \<bar>x\<bar> / 2 ^ 53"
proof (cases "x = 0")
  case True
  then show ?thesis by (simp add: fl_def)
next
  case False
  define e where "e = ilog2 \<bar>x\<bar>"
  define u :: rat where "u = 2 powi (e - 52)"
  have u: "0 < u"
    by (simp add: u_def)
  have le: "2 powi e \<le> \<bar>x\<bar>"
    unfolding e_def using False by (intro ilog2_le) simp
  have "fl x - x = (of_int (rne (x / u)) - x / u) * u"
    using False u by (simp add: fl_def e_def u_def Let_def algebra_simps)
  then have "\<bar>fl x - x\<bar> = \<bar>of_int (rne (x / u)) - x / u\<bar> * u"
    using u by (simp add: abs_mult)
  also have "\<dots> \<le> (1 / 2) * u"
    using rne_error [of "x / u"] u by (intro mult_right_mono) simp_all
  also have "\<dots> = 2 powi e / 2 ^ 53"
    by (simp add: u_def power_int_diff)
  also have "\<dots> \<le> \<bar>x\<bar> / 2 ^ 53"
    using le by (simp add: divide_right_mono)
  finally show ?thesis .
qed


lemma ilog2_less:
  assumes "0 < x"
  shows "x < 2 powi (ilog2 x + 1)"
proof -
  obtain p q where pq: "quotient_of x = (p, q)"
    by (cases "quotient_of x")
  then have q: "0 < q" and x: "x = of_int p / of_int q"
    by (simp_all add: quotient_of_denom_pos quotient_of_div)
  from assms x q have p: "0 < p"
    by (simp add: zero_less_divide_iff)
  define d where "d = bitlen p - bitlen q"
  show ?thesis
  proof (cases "(2::rat) powi d \<le> x")
    case False
    then show ?thesis
      by (simp add: ilog2_def pq d_def [symmetric])
  next
    case True
    have bp: "1 \<le> bitlen p" and bq: "1 \<le> bitlen q"
      using p q bitlen_eq_zero_iff [of p] bitlen_eq_zero_iff [of q] bitlen_nonneg [of p] bitlen_nonneg [of q]
      by linarith+
    from bitlen_bounds [OF p] have "p < (2::int) ^ nat (bitlen p)"
      by simp
    then have "(of_int p :: rat) < of_int ((2::int) ^ nat (bitlen p))"
      by (simp only: of_int_less_iff)
    then have hi: "of_int p < (2::rat) powi (bitlen p)"
      using bp by (simp add: power_int_def)
    from bitlen_bounds [OF q] have "(2::int) ^ nat (bitlen q - 1) \<le> q"
      by simp
    then have "(of_int ((2::int) ^ nat (bitlen q - 1)) :: rat) \<le> of_int q"
      by (simp only: of_int_le_iff)
    then have lo: "(2::rat) powi (bitlen q - 1) \<le> of_int q"
      using bq by (simp add: power_int_def)
    have "x = of_int p / of_int q"
      by (rule x)
    also have "\<dots> < 2 powi (bitlen p) / of_int q"
      using hi q by (simp add: divide_strict_right_mono)
    also have "\<dots> \<le> 2 powi (bitlen p) / 2 powi (bitlen q - 1)"
      using lo q by (intro divide_left_mono mult_pos_pos) simp_all
    also have "\<dots> = 2 powi (bitlen p - (bitlen q - 1))"
      by (rule power_int_diff [symmetric]) simp
    also have "\<dots> = 2 powi (d + 1)"
    proof -
      have "bitlen p - (bitlen q - 1) = d + 1"
        unfolding d_def by linarith
      then show ?thesis
        by (simp only:)
    qed
    finally show ?thesis
      using True by (simp add: ilog2_def pq d_def [symmetric])
  qed
qed

lemma half_gap:
  fixes a m j :: int
  assumes "m \<noteq> 0"
    and "of_int a / of_int m * 100 \<noteq> (of_int j + 1 / 2 :: rat)"
  shows "1 / (2 * \<bar>of_int m\<bar>) \<le> \<bar>of_int a / of_int m * 100 - (of_int j + 1 / 2 :: rat)\<bar>"
proof -
  define N where "N = 200 * a - (2 * j + 1) * m"
  have eq: "of_int a / of_int m * 100 - (of_int j + 1 / 2 :: rat) = of_int N / (2 * of_int m)"
    using assms(1) by (simp add: N_def field_simps)
  with assms(2) have "N \<noteq> 0"
    by auto
  then have "1 \<le> \<bar>N\<bar>"
    by simp
  then have "(1::rat) \<le> \<bar>of_int N\<bar>"
    by (metis of_int_1_le_iff of_int_abs)
  then have "1 / (2 * \<bar>of_int m :: rat\<bar>) \<le> \<bar>of_int N\<bar> / (2 * \<bar>of_int m\<bar>)"
    using assms(1) by (intro divide_right_mono) simp_all
  also have "\<dots> = \<bar>of_int N / (2 * of_int m :: rat)\<bar>"
    by (simp add: abs_divide abs_mult)
  finally show ?thesis
    by (simp only: eq)
qed

lemma pct_error:
  fixes a m :: int
  assumes "m \<noteq> 0"
  shows "\<bar>fl (fl (of_int a / of_int m) * 100) - of_int a / of_int m * 100\<bar>
           \<le> 300 * \<bar>of_int a\<bar> / (2 ^ 53 * \<bar>of_int m\<bar>)"
proof -
  define r :: rat where "r = of_int a / of_int m"
  define q where "q = fl r"
  define y where "y = fl (q * 100)"
  have e1: "\<bar>q - r\<bar> \<le> \<bar>r\<bar> / 2 ^ 53"
    unfolding q_def by (rule fl_error)
  have e2: "\<bar>y - q * 100\<bar> \<le> \<bar>q * 100\<bar> / 2 ^ 53"
    unfolding y_def by (rule fl_error)
  have "\<bar>q\<bar> \<le> \<bar>r\<bar> + \<bar>q - r\<bar>"
    by linarith
  also have "\<dots> \<le> \<bar>r\<bar> + \<bar>r\<bar> / 2 ^ 53"
    using e1 by linarith
  also have "\<dots> \<le> 2 * \<bar>r\<bar>"
    by simp
  finally have q2: "\<bar>q\<bar> \<le> 2 * \<bar>r\<bar>" .
  have tri: "\<bar>(y - q * 100) + 100 * (q - r)\<bar> \<le> \<bar>y - q * 100\<bar> + \<bar>100 * (q - r)\<bar>"
    by (rule abs_triangle_ineq)
  have am: "\<bar>100 * (q - r)\<bar> = 100 * \<bar>q - r\<bar>"
    by (simp only: abs_mult abs_numeral)
  have split: "(y - q * 100) + 100 * (q - r) = y - r * 100"
    by (simp add: algebra_simps)
  from tri have "\<bar>y - r * 100\<bar> \<le> \<bar>y - q * 100\<bar> + 100 * \<bar>q - r\<bar>"
    unfolding am split .
  also have "\<dots> \<le> \<bar>q * 100\<bar> / 2 ^ 53 + 100 * (\<bar>r\<bar> / 2 ^ 53)"
    by (intro add_mono mult_left_mono e1 e2) simp
  also have "\<dots> \<le> (2 * \<bar>r\<bar> * 100) / 2 ^ 53 + 100 * (\<bar>r\<bar> / 2 ^ 53)"
    using q2 by (simp add: abs_mult divide_right_mono)
  also have "\<dots> = 300 * \<bar>r\<bar> / 2 ^ 53"
    by simp
  also have "\<dots> = 300 * \<bar>of_int a\<bar> / (2 ^ 53 * \<bar>of_int m\<bar>)"
    by (simp add: r_def abs_divide)
  finally show ?thesis
    by (simp only: y_def q_def r_def)
qed

lemma pct_near:
  fixes a m :: int
  assumes m: "m \<noteq> 0" and a: "600 * \<bar>a\<bar> < 2 ^ 53"
  shows "\<bar>of_int (pct a m) - of_int a / of_int m * 100\<bar> \<le> (1 / 2 :: rat)"
proof -
  define x :: rat where "x = of_int a / of_int m * 100"
  define y where "y = fl (fl (of_int a / of_int m) * 100)"
  define p where "p = pct a m"
  define eps :: rat where "eps = 300 * \<bar>of_int a\<bar> / (2 ^ 53 * \<bar>of_int m\<bar>)"
  have yx: "\<bar>y - x\<bar> \<le> eps"
    unfolding y_def x_def eps_def by (rule pct_error [OF m])
  have "(of_int (600 * \<bar>a\<bar>) :: rat) < of_int (2 ^ 53)"
    using a by (simp only: of_int_less_iff)
  then have "600 * \<bar>of_int a :: rat\<bar> < 2 ^ 53"
    by simp
  then have "300 * \<bar>of_int a :: rat\<bar> / 2 ^ 53 < 1 / 2"
    by simp
  then have "300 * \<bar>of_int a :: rat\<bar> / 2 ^ 53 / \<bar>of_int m\<bar> < 1 / 2 / \<bar>of_int m\<bar>"
    using m by (intro divide_strict_right_mono) simp_all
  then have eps: "eps < 1 / (2 * \<bar>of_int m\<bar>)"
    by (simp add: eps_def)
  have p: "of_int p \<le> y + 1 / 2" "y + 1 / 2 < of_int p + 1"
    unfolding p_def pct_def mathRound_def y_def by linarith+
  have up: "x \<le> of_int p + 1 / 2"
  proof (rule ccontr)
    assume "\<not> x \<le> of_int p + 1 / 2"
    then have gt: "of_int p + 1 / 2 < x"
      by simp
    then have "x \<noteq> of_int p + 1 / 2"
      by simp
    from half_gap [OF m this [unfolded x_def]] gt
    have "1 / (2 * \<bar>of_int m\<bar>) \<le> x - (of_int p + 1 / 2)"
      by (simp add: x_def)
    with eps yx p(2) show False
      by linarith
  qed
  have lo: "of_int p - 1 / 2 \<le> x"
  proof (rule ccontr)
    assume "\<not> of_int p - 1 / 2 \<le> x"
    then have lt: "x < of_int (p - 1) + 1 / 2"
      by simp
    then have "x \<noteq> of_int (p - 1) + 1 / 2"
      by simp
    from half_gap [OF m this [unfolded x_def]] lt
    have "1 / (2 * \<bar>of_int m\<bar>) \<le> of_int (p - 1) + 1 / 2 - x"
      by (simp add: x_def)
    with eps yx p(1) show False
      by simp
  qed
  from lo have "of_int p - x \<le> 1 / 2"
    by linarith
  moreover from up have "- (of_int p - x) \<le> 1 / 2"
    by linarith
  ultimately have "\<bar>of_int p - x\<bar> \<le> 1 / 2"
    by (rule abs_leI)
  then show ?thesis
    unfolding p_def x_def .
qed

lemma pct_exact:
  fixes a m :: int
  assumes m: "m \<noteq> 0" and a: "600 * \<bar>a\<bar> < 2 ^ 53"
    and tie: "\<forall>k :: int. of_int a / of_int m * 100 \<noteq> (of_int k + 1 / 2 :: rat)"
  shows "pct a m = round (of_int a / of_int m * 100 :: rat)"
proof -
  define x :: rat where "x = of_int a / of_int m * 100"
  from pct_near [OF m a] have n: "\<bar>of_int (pct a m) - x\<bar> \<le> 1 / 2"
    by (simp add: x_def)
  from tie have t: "x \<noteq> of_int (pct a m) + 1 / 2"
    unfolding x_def by blast
  have b: "x - of_int (pct a m) \<le> 1 / 2" "of_int (pct a m) - x \<le> 1 / 2"
    using abs_le_D2 [OF n] abs_le_D1 [OF n] by linarith+
  from b(1) t have "of_int (pct a m) > x - 1 / 2"
    by linarith
  moreover from b(2) have "of_int (pct a m) \<le> x + 1 / 2"
    by linarith
  ultimately have "of_int (pct a m) > x - 1 / 2" "of_int (pct a m) \<le> x + 1 / 2"
    by simp_all
  then have "round x = pct a m"
    by (rule round_unique)
  then show ?thesis
    by (simp add: x_def)
qed


lemma pct_round_cases:
  fixes a m :: int
  assumes m: "m \<noteq> 0" and a: "600 * \<bar>a\<bar> < 2 ^ 53"
  shows "pct a m = round (of_int a / of_int m * 100 :: rat)
         \<or> (pct a m = round (of_int a / of_int m * 100 :: rat) - 1
            \<and> (of_int a / of_int m * 100 :: rat) = of_int (pct a m) + 1 / 2)"
proof -
  define x :: rat where "x = of_int a / of_int m * 100"
  from pct_near [OF m a] have n: "\<bar>of_int (pct a m) - x\<bar> \<le> 1 / 2"
    by (simp add: x_def)
  have b: "x - of_int (pct a m) \<le> 1 / 2" "of_int (pct a m) - x \<le> 1 / 2"
    using abs_le_D2 [OF n] abs_le_D1 [OF n] by linarith+
  show ?thesis
  proof (cases "x = of_int (pct a m) + 1 / 2")
    case True
    then have "x + 1 / 2 = of_int (pct a m + 1)"
      by simp
    then have "round x = pct a m + 1"
      unfolding round_def by (simp only: floor_of_int)
    with True show ?thesis
      by (simp add: x_def)
  next
    case False
    with b(1) have "of_int (pct a m) > x - 1 / 2"
      by linarith
    moreover from b(2) have "of_int (pct a m) \<le> x + 1 / 2"
      by linarith
    ultimately have "round x = pct a m"
      by (rule round_unique)
    then show ?thesis
      by (simp add: x_def)
  qed
qed

lemma pct_threshold:
  fixes a m T :: int
  assumes m: "m \<noteq> 0" and a: "600 * \<bar>a\<bar> < 2 ^ 53"
    and c: "mathRound (fl (fl ((of_int T - 1 / 2) / 100) * 100)) = T"
  shows "(pct a m < T) = (round (of_int a / of_int m * 100 :: rat) < T)"
proof -
  define x :: rat where "x = of_int a / of_int m * 100"
  from pct_round_cases [OF m a]
  consider "pct a m = round x" | "pct a m = round x - 1" "x = of_int (pct a m) + 1 / 2"
    unfolding x_def by blast
  then have "(pct a m < T) = (round x < T)"
  proof cases
    case 1
    then show ?thesis
      by simp
  next
    case 2
    show ?thesis
    proof (rule ccontr)
      assume "(pct a m < T) \<noteq> (round x < T)"
      with 2(1) have p: "pct a m = T - 1"
        by linarith
      with 2(2) have "x = of_int T - 1 / 2"
        by simp
      then have "of_int a / of_int m = ((of_int T - 1 / 2) / 100 :: rat)"
        by (simp add: x_def)
      then have "pct a m = mathRound (fl (fl ((of_int T - 1 / 2) / 100) * 100))"
        by (simp only: pct_def)
      with c p show False
        by simp
    qed
  qed
  then show ?thesis
    by (simp only: x_def)
qed

lemma pct_70: "mathRound (fl (fl ((of_int 70 - 1 / 2) / 100) * 100)) = 70"
  by code_simp

lemma pct_100: "mathRound (fl (fl ((of_int 100 - 1 / 2) / 100) * 100)) = 100"
  by code_simp

lemma pct_130: "mathRound (fl (fl ((of_int 130 - 1 / 2) / 100) * 100)) = 130"
  by code_simp

lemma pct_tie:
  fixes a m :: int
  assumes m: "m \<noteq> 0" and a: "600 * \<bar>a\<bar> < 2 ^ 53"
    and t: "frac (of_int a / of_int m * 100 :: rat) \<noteq> 1 / 2"
  shows "pct a m = round (of_int a / of_int m * 100 :: rat)"
proof -
  define x :: rat where "x = of_int a / of_int m * 100"
  have half: "frac (of_int (pct a m) + 1 / 2 :: rat) = 1 / 2"
    by (simp add: frac_unique_iff)
  from pct_round_cases [OF m a]
  have "pct a m = round x \<or> x = of_int (pct a m) + 1 / 2"
    unfolding x_def by blast
  moreover from t have "x \<noteq> of_int (pct a m) + 1 / 2"
    unfolding x_def [symmetric] using half by metis
  ultimately have "pct a m = round x"
    by blast
  then show ?thesis
    by (simp only: x_def)
qed

subsection \<open>Historical data\<close>

text \<open>
  The loop keeps, in the order they are asked for, the days whose fetch is not \<open>null\<close>.
  \<open>fetchHistoricalData\<close> returns \<open>null\<close> exactly when it keeps none; otherwise \<open>dias\<close> is
  the number of days kept and each mean is \<open>Math.round\<close> of the sum over those days
  divided by that number.
\<close>

lemma fetchLoop_map_filter:
  "fetchLoop config replies hoje days i acc =
     acc @ List.map_filter (\<lambda>i. fetchDayData config (replies i) (hoje - i)) [i..days]"
proof (induction config replies hoje days i acc rule: fetchLoop.induct)
  case (1 config replies hoje days i historico)
  show ?case
  proof (cases "i \<le> days")
    case True
    then have u: "[i..days] = i # [i + 1..days]"
      by (simp add: upto_rec1)
    show ?thesis
      using True 1 [OF True]
      by (subst fetchLoop.simps) (simp add: u List.map_filter_simps split: option.split)
  next
    case False
    then show ?thesis
      by (subst fetchLoop.simps) (simp add: List.map_filter_simps)
  qed
qed

lemma map_filter_Nil_iff: "List.map_filter f xs = [] \<longleftrightarrow> (\<forall>x\<in>set xs. f x = None)"
  by (induction xs) (auto simp: List.map_filter_simps split: option.splits)

lemma soma_acc:
  "map f hs = map Num xs \<Longrightarrow> foldl (\<lambda>sum d. jsAdd sum (f d)) (Num acc) hs = Num (acc + sum_list xs)"
proof (induction hs arbitrary: xs acc)
  case Nil
  then show ?case by simp
next
  case (Cons h hs)
  then obtain y ys where xs: "xs = y # ys" and h: "f h = Num y" and r: "map f hs = map Num ys"
    by (cases xs) auto
  show ?case
    using Cons.IH [OF r, of "acc + y"] by (simp add: xs h add.assoc)
qed

lemma soma_Num: "map f hs = map Num xs \<Longrightarrow> soma f hs = Num (sum_list xs)"
  using soma_acc [of f hs xs 0] by (simp add: soma_def)

lemma fetchLoop_ok: "fetchLoop config replies hoje days 1 [] = successfulDays config replies hoje days"
  by (simp only: fetchLoop_map_filter successfulDays_def append_Nil)

lemma hist_none:
  "(fetchHistoricalData config replies hoje days now = None)
     = (successfulDays config replies hoje days = [])"
  by (simp add: fetchHistoricalData_def fetchLoop_ok Let_def)

lemma ok_none:
  "(successfulDays config replies hoje days = [])
     = (\<forall>i\<in>{1..days}. fetchDayData config (replies i) (hoje - i) = None)"
  by (simp add: successfulDays_def map_filter_Nil_iff)

lemma hist_some:
  assumes "fetchHistoricalData config replies hoje days now = Some h"
  defines "ok \<equiv> successfulDays config replies hoje days"
  shows "ok \<noteq> []" "historico h = ok" "dias h = length ok"
      "mediaAtendidas (medias h) = mathRoundDiv (soma atendidas ok) (Num (int (length ok)))"
      "mediaAbandonadas (medias h) = mathRoundDiv (soma abandonadas ok) (Num (int (length ok)))"
      "mediaRetidasURA (medias h) = mathRoundDiv (soma retidasURA ok) (Num (int (length ok)))"
      "mediaTotal (medias h) = mathRoundDiv (soma total ok) (Num (int (length ok)))"
proof -
  show ne: "ok \<noteq> []"
    using assms(1) hist_none [of config replies hoje days now] by (simp add: ok_def)
  then have "length ok \<noteq> 0"
    by simp
  with assms(1) have hv: "Some h = Some \<lparr> dias = length ok, historico = ok,
         medias = \<lparr> mediaAtendidas = mathRoundDiv (soma atendidas ok) (Num (int (length ok))),
                    mediaAbandonadas = mathRoundDiv (soma abandonadas ok) (Num (int (length ok))),
                    mediaRetidasURA = mathRoundDiv (soma retidasURA ok) (Num (int (length ok))),
                    mediaTotal = mathRoundDiv (soma total ok) (Num (int (length ok))) \<rparr>,
         histLastUpdate = now \<rparr>"
    unfolding fetchHistoricalData_def fetchLoop_ok Let_def ok_def [symmetric]
    by (simp only: if_False)
  then have hv': "h = \<lparr> dias = length ok, historico = ok,
         medias = \<lparr> mediaAtendidas = mathRoundDiv (soma atendidas ok) (Num (int (length ok))),
                    mediaAbandonadas = mathRoundDiv (soma abandonadas ok) (Num (int (length ok))),
                    mediaRetidasURA = mathRoundDiv (soma retidasURA ok) (Num (int (length ok))),
                    mediaTotal = mathRoundDiv (soma total ok) (Num (int (length ok))) \<rparr>,
         histLastUpdate = now \<rparr>"
    by (simp only: option.inject)
  show "historico h = ok" "dias h = length ok"
      "mediaAtendidas (medias h) = mathRoundDiv (soma atendidas ok) (Num (int (length ok)))"
      "mediaAbandonadas (medias h) = mathRoundDiv (soma abandonadas ok) (Num (int (length ok)))"
      "mediaRetidasURA (medias h) = mathRoundDiv (soma retidasURA ok) (Num (int (length ok)))"
      "mediaTotal (medias h) = mathRoundDiv (soma total ok) (Num (int (length ok)))"
    by (simp_all add: hv')
qed


lemma fetchDayData_ignores_status:
  assumes "status < 500"
  shows "fetchDayData config (HttpResponse status body) day
         = fetchDayData config (HttpResponse 200 body) day"
  using assms by (simp add: fetchDayData_def axiosGet_def)

lemma fetchHistoricalData_example:
  "fetchHistoricalData cfgOk threeDays 100 3 0 = Some threeDaysHistory"
  by code_simp

text \<open>
  C2. A day whose request the provider rejects with a status from 400 to 499 and a body
  is kept as a day of zeros: \<open>fetchDayData\<close> lets every status below 500 through and never
  looks at it, where \<open>fetchTodayCalls\<close> returns \<open>null\<close> from 400 on. With one day of 30
  attended calls and two rejected days the history has three days and the mean of the
  attended calls is 10, not 30 over the one day that yielded data; with every day
  rejected the result is a history of zeros, not \<open>null\<close>.
\<close>

theorem fetchHistoricalData_counts_rejected_days:
  "fetchTodayCalls cfgOk notFound = JNull
   \<and> fetchDayData cfgOk notFound 98
       = Some \<lparr>date = 98, atendidas = Num 0, abandonadas = Num 0, retidasURA = Num 0, total = Num 0\<rparr>
   \<and> fetchHistoricalData cfgOk oneDayTwoRejected 100 3 7
       = Some \<lparr> dias = 3,
                 historico =
                  [\<lparr>date = 99, atendidas = Num 30, abandonadas = Num 0, retidasURA = Num 0, total = Num 30\<rparr>,
                   \<lparr>date = 98, atendidas = Num 0, abandonadas = Num 0, retidasURA = Num 0, total = Num 0\<rparr>,
                   \<lparr>date = 97, atendidas = Num 0, abandonadas = Num 0, retidasURA = Num 0, total = Num 0\<rparr>],
                 medias = \<lparr>mediaAtendidas = Num 10, mediaAbandonadas = Num 0, mediaRetidasURA = Num 0,
                            mediaTotal = Num 10\<rparr>,
                 histLastUpdate = 7 \<rparr>
   \<and> fetchHistoricalData cfgOk (\<lambda>i. notFound) 100 2 7
       = Some \<lparr> dias = 2,
                 historico =
                  [\<lparr>date = 99, atendidas = Num 0, abandonadas = Num 0, retidasURA = Num 0, total = Num 0\<rparr>,
                   \<lparr>date = 98, atendidas = Num 0, abandonadas = Num 0, retidasURA = Num 0, total = Num 0\<rparr>],
                 medias = \<lparr>mediaAtendidas = Num 0, mediaAbandonadas = Num 0, mediaRetidasURA = Num 0,
                            mediaTotal = Num 0\<rparr>,
                 histLastUpdate = 7 \<rparr>"
  by code_simp

subsection \<open>Level classification\<close>

lemma classificarNivel_pct:
  fixes a m :: int
  assumes "m \<noteq> 0"
  shows "classificarNivel (Num a) (Num m) =
     \<lparr> nivel = (if pct a m < 70 then AbaixoDoComum else if pct a m < 100 then Medio
                 else if pct a m < 130 then Alto else Altissimo),
       emoji = (if pct a m < 70 then RedCircle else if pct a m < 100 then YellowCircle
                 else if pct a m < 130 then GreenCircle else Fire),
       percentual = Num (pct a m), descricao = Some (Num (pct a m), Num m) \<rparr>"
  using assms by (simp add: classificarNivel_def Let_def)

lemma classificarNivel_round:
  fixes a m :: int
  assumes m: "m \<noteq> 0" and a: "600 * \<bar>a\<bar> < 2 ^ 53"
  defines "r \<equiv> round (of_int a / of_int m * 100 :: rat)"
  shows "nivel (classificarNivel (Num a) (Num m)) =
           (if r < 70 then AbaixoDoComum else if r < 100 then Medio
            else if r < 130 then Alto else Altissimo)"
    and "emoji (classificarNivel (Num a) (Num m)) =
           (if r < 70 then RedCircle else if r < 100 then YellowCircle
            else if r < 130 then GreenCircle else Fire)"
  unfolding classificarNivel_pct [OF m] r_def
    pct_threshold [OF m a pct_70] pct_threshold [OF m a pct_100] pct_threshold [OF m a pct_130]
  by simp_all

text \<open>
  C3, as the code has it. With mean 0 the level is the undefined one (white circle,
  percentage 0) whatever the current value. With an integer current value \<open>a\<close> and a mean
  \<open>m\<close> other than 0 the percentage is \<open>pct a m\<close>, the integer \<open>Math.round\<close> makes of the
  double \<open>(a / m) * 100\<close>, and the level follows it: below 70 below normal (red), 70 to
  99 normal (yellow), 100 to 129 high (green), 130 and more very high (fire). For
  integers that are doubles, with \<open>600 * |a| < 2^53\<close>, the percentage is within a half of
  the exact \<open>a / m * 100\<close>: it is the rounded exact value \<open>r\<close> or, only when the exact value
  lies halfway between two integers, one less; and the level is in every case the one
  the thresholds give for \<open>r\<close>.
\<close>

theorem classificarNivel_levels:
  fixes a m :: int and v :: jsnum
  shows
  "classificarNivel v (Num 0)
     = \<lparr> nivel = Indefinido, emoji = WhiteCircle, percentual = Num 0, descricao = None \<rparr>
   \<and> (m \<noteq> 0 \<longrightarrow>
        (let p = pct a m;
             c = classificarNivel (Num a) (Num m)
         in percentual c = Num p
            \<and> (p < 70 \<longrightarrow> nivel c = AbaixoDoComum \<and> emoji c = RedCircle)
            \<and> (70 \<le> p \<and> p \<le> 99 \<longrightarrow> nivel c = Medio \<and> emoji c = YellowCircle)
            \<and> (100 \<le> p \<and> p \<le> 129 \<longrightarrow> nivel c = Alto \<and> emoji c = GreenCircle)
            \<and> (130 \<le> p \<longrightarrow> nivel c = Altissimo \<and> emoji c = Fire)))
   \<and> (m \<noteq> 0 \<and> \<bar>m\<bar> < 2 ^ 53 \<and> 600 * \<bar>a\<bar> < 2 ^ 53 \<longrightarrow>
        (let x = (of_int a / of_int m * 100 :: rat);
             r = round x;
             p = pct a m;
             c = classificarNivel (Num a) (Num m)
         in \<bar>of_int p - x\<bar> \<le> 1 / 2
            \<and> (p = r \<or> p = r - 1)
            \<and> (frac x \<noteq> 1 / 2 \<longrightarrow> p = r)
            \<and> (r < 70 \<longrightarrow> nivel c = AbaixoDoComum \<and> emoji c = RedCircle)
            \<and> (70 \<le> r \<and> r \<le> 99 \<longrightarrow> nivel c = Medio \<and> emoji c = YellowCircle)
            \<and> (100 \<le> r \<and> r \<le> 129 \<longrightarrow> nivel c = Alto \<and> emoji c = GreenCircle)
            \<and> (130 \<le> r \<longrightarrow> nivel c = Altissimo \<and> emoji c = Fire)))"
proof (intro conjI impI)
  show "classificarNivel v (Num 0)
     = \<lparr> nivel = Indefinido, emoji = WhiteCircle, percentual = Num 0, descricao = None \<rparr>"
    by (simp add: classificarNivel_def)
next
  assume "m \<noteq> 0"
  from classificarNivel_pct [OF this, of a]
  show "let p = pct a m;
            c = classificarNivel (Num a) (Num m)
        in percentual c = Num p
            \<and> (p < 70 \<longrightarrow> nivel c = AbaixoDoComum \<and> emoji c = RedCircle)
            \<and> (70 \<le> p \<and> p \<le> 99 \<longrightarrow> nivel c = Medio \<and> emoji c = YellowCircle)
            \<and> (100 \<le> p \<and> p \<le> 129 \<longrightarrow> nivel c = Alto \<and> emoji c = GreenCircle)
            \<and> (130 \<le> p \<longrightarrow> nivel c = Altissimo \<and> emoji c = Fire)"
    by (simp add: Let_def)
next
  assume h: "m \<noteq> 0 \<and> \<bar>m\<bar> < 2 ^ 53 \<and> 600 * \<bar>a\<bar> < 2 ^ 53"
  then have m: "m \<noteq> 0" and a: "600 * \<bar>a\<bar> < 2 ^ 53"
    by simp_all
  define x :: rat where "x = of_int a / of_int m * 100"
  have near: "\<bar>of_int (pct a m) - x\<bar> \<le> 1 / 2"
    unfolding x_def by (rule pct_near [OF m a])
  from pct_round_cases [OF m a] have cases: "pct a m = round x \<or> pct a m = round x - 1"
    unfolding x_def by blast
  have tie: "frac x \<noteq> 1 / 2 \<longrightarrow> pct a m = round x"
    unfolding x_def using pct_tie [OF m a] by blast
  note lv = classificarNivel_round [OF m a, folded x_def]
  have l1: "round x < 70 \<longrightarrow> nivel (classificarNivel (Num a) (Num m)) = AbaixoDoComum
                \<and> emoji (classificarNivel (Num a) (Num m)) = RedCircle"
    by (simp add: lv)
  have l2: "70 \<le> round x \<and> round x \<le> 99 \<longrightarrow> nivel (classificarNivel (Num a) (Num m)) = Medio
                \<and> emoji (classificarNivel (Num a) (Num m)) = YellowCircle"
    by (simp add: lv)
  have l3: "100 \<le> round x \<and> round x \<le> 129 \<longrightarrow> nivel (classificarNivel (Num a) (Num m)) = Alto
                \<and> emoji (classificarNivel (Num a) (Num m)) = GreenCircle"
    by (simp add: lv)
  have l4: "130 \<le> round x \<longrightarrow> nivel (classificarNivel (Num a) (Num m)) = Altissimo
                \<and> emoji (classificarNivel (Num a) (Num m)) = Fire"
    by (simp add: lv)
  from near cases tie l1 l2 l3 l4
  show "let x = (of_int a / of_int m * 100 :: rat);
            r = round x;
            p = pct a m;
            c = classificarNivel (Num a) (Num m)
        in \<bar>of_int p - x\<bar> \<le> 1 / 2
            \<and> (p = r \<or> p = r - 1)
            \<and> (frac x \<noteq> 1 / 2 \<longrightarrow> p = r)
            \<and> (r < 70 \<longrightarrow> nivel c = AbaixoDoComum \<and> emoji c = RedCircle)
            \<and> (70 \<le> r \<and> r \<le> 99 \<longrightarrow> nivel c = Medio \<and> emoji c = YellowCircle)
            \<and> (100 \<le> r \<and> r \<le> 129 \<longrightarrow> nivel c = Alto \<and> emoji c = GreenCircle)
            \<and> (130 \<le> r \<longrightarrow> nivel c = Altissimo \<and> emoji c = Fire)"
    unfolding Let_def x_def [symmetric] by (intro conjI)
qed

theorem classificarNivel_levels_witness:
  "classificarNivel (Num 5) (Num 0)
     = \<lparr> nivel = Indefinido, emoji = WhiteCircle, percentual = Num 0, descricao = None \<rparr>
   \<and> nivel (classificarNivel (Num 65) (Num 100)) = AbaixoDoComum
   \<and> nivel (classificarNivel (Num 99) (Num 100)) = Medio
   \<and> nivel (classificarNivel (Num 100) (Num 100)) = Alto
   \<and> nivel (classificarNivel (Num 130) (Num 100)) = Altissimo
   \<and> emoji (classificarNivel (Num 139) (Num 200)) = YellowCircle
   \<and> percentual (classificarNivel (Num 139) (Num 200)) = Num 70"
proof -
  have p: "pct 139 200 = 70"
    by code_simp
  have r: "round (139 / 200 * 100 :: rat) = 70"
    by (simp add: round_def)
  show ?thesis
    using classificarNivel_levels [of "Num 5" 100 65] classificarNivel_levels [of "Num 5" 100 99]
      classificarNivel_levels [of "Num 5" 100 100] classificarNivel_levels [of "Num 5" 100 130]
      classificarNivel_levels [of "Num 5" 200 139] p r
    by (simp add: Let_def)
qed

text \<open>
  C3, as stated, fails on the percentage: the exact ratio of 23 to a mean of 40 is 57.5,
  which rounds to 58, but the double \<open>(23 / 40) * 100\<close> lies just below 57.5 and the code
  reports 57.
\<close>

theorem classificarNivel_round_counterexample:
  "percentual (classificarNivel (Num 23) (Num 40)) = Num 57
   \<and> round (23 / 40 * 100 :: rat) = 58"
proof
  show "percentual (classificarNivel (Num 23) (Num 40)) = Num 57"
    by code_simp
  show "round (23 / 40 * 100 :: rat) = 58"
    by (simp add: round_def)
qed

subsection \<open>The KPI aggregator\<close>

lemma tallyCall_ok:
  assumes "classifyCallStatus rt call = Inr k"
  shows "\<exists>t'. tallyCall rt call t = Inr t'
     \<and> nAnswered t' = nAnswered t + (if k = Answered then 1 else 0)
     \<and> nAbandoned t' = nAbandoned t + (if k = Abandoned then 1 else 0)
     \<and> nRetainedURA t' = nRetainedURA t + (if k = RetainedUra then 1 else 0)
     \<and> nOther t' = nOther t + (if k = Other then 1 else 0)"
  using assms by (cases k) (simp_all add: tallyCall_def countClass_def Let_def)

lemma countOf_Cons:
  "countOf rt k (call # calls) = (if classifyCallStatus rt call = Inr k then 1 else 0) + countOf rt k calls"
  by (simp add: countOf_def)

lemma tallyCalls_ok:
  assumes "\<forall>call\<in>set calls. \<exists>k. classifyCallStatus rt call = Inr k"
  shows "\<exists>t'. tallyCalls rt calls t = Inr t'
     \<and> nAnswered t' = nAnswered t + countOf rt Answered calls
     \<and> nAbandoned t' = nAbandoned t + countOf rt Abandoned calls
     \<and> nRetainedURA t' = nRetainedURA t + countOf rt RetainedUra calls
     \<and> nOther t' = nOther t + countOf rt Other calls"
  using assms
proof (induction calls arbitrary: t)
  case Nil
  show ?case by (simp add: countOf_def)
next
  case (Cons call calls)
  then obtain k where k: "classifyCallStatus rt call = Inr k"
    by auto
  from tallyCall_ok [OF k] obtain t1 where
    t1: "tallyCall rt call t = Inr t1"
      "nAnswered t1 = nAnswered t + (if k = Answered then 1 else 0)"
      "nAbandoned t1 = nAbandoned t + (if k = Abandoned then 1 else 0)"
      "nRetainedURA t1 = nRetainedURA t + (if k = RetainedUra then 1 else 0)"
      "nOther t1 = nOther t + (if k = Other then 1 else 0)"
    by blast
  from Cons.prems have "\<forall>call\<in>set calls. \<exists>k. classifyCallStatus rt call = Inr k"
    by simp
  from Cons.IH [OF this] obtain t2 where
    t2: "tallyCalls rt calls t1 = Inr t2"
      "nAnswered t2 = nAnswered t1 + countOf rt Answered calls"
      "nAbandoned t2 = nAbandoned t1 + countOf rt Abandoned calls"
      "nRetainedURA t2 = nRetainedURA t1 + countOf rt RetainedUra calls"
      "nOther t2 = nOther t1 + countOf rt Other calls"
    by blast
  show ?case
    by (simp add: t1 t2 countOf_Cons k)
qed

lemma tallyCalls_throws:
  assumes "\<exists>call\<in>set calls. \<exists>e. classifyCallStatus rt call = Inl e"
  shows "\<exists>e. tallyCalls rt calls t = Inl e"
  using assms
proof (induction calls arbitrary: t)
  case Nil
  then show ?case by simp
next
  case (Cons call calls)
  show ?case
  proof (cases "classifyCallStatus rt call")
    case (Inl e)
    then show ?thesis
      by (simp add: tallyCall_def)
  next
    case (Inr k)
    from tallyCall_ok [OF Inr] obtain t1 where t1: "tallyCall rt call t = Inr t1"
      by blast
    from Cons.prems Inr have "\<exists>call\<in>set calls. \<exists>e. classifyCallStatus rt call = Inl e"
      by auto
    from Cons.IH [OF this] show ?thesis
      by (simp add: t1)
  qed
qed

lemma countOf_sum:
  assumes "\<forall>call\<in>set calls. \<exists>k. classifyCallStatus rt call = Inr k"
  shows "countOf rt Answered calls + countOf rt Abandoned calls + countOf rt RetainedUra calls
           + countOf rt Other calls = length calls"
  using assms
proof (induction calls)
  case Nil
  show ?case by (simp add: countOf_def)
next
  case (Cons call calls)
  then obtain k where k: "classifyCallStatus rt call = Inr k"
    by auto
  from Cons have "countOf rt Answered calls + countOf rt Abandoned calls + countOf rt RetainedUra calls
           + countOf rt Other calls = length calls"
    by simp
  then show ?case
    by (cases k) (simp_all add: countOf_Cons k)
qed

lemma fetchTodayCalls_data:
  "isConfigured config \<Longrightarrow> status < 400 \<Longrightarrow> truthy data
     \<Longrightarrow> fetchTodayCalls config (HttpResponse status data) = data"
  by (simp add: fetchTodayCalls_def axiosGet_def)

lemma listKPIs_ok:
  assumes "\<forall>call\<in>set calls. \<exists>k. classifyCallStatus rt call = Inr k"
  shows "\<exists>k. listKPIs rt calls now = Inr k
      \<and> totalCalls k = Num (int (length calls))
      \<and> answered k = Num (int (countOf rt Answered calls))
      \<and> abandoned k = Num (int (countOf rt Abandoned calls))
      \<and> retainedURA k = Num (int (countOf rt RetainedUra calls))
      \<and> other k = Num (int (countOf rt Other calls))"
proof -
  from tallyCalls_ok [OF assms, where t = emptyTally] obtain t where
    "tallyCalls rt calls emptyTally = Inr t"
    "nAnswered t = countOf rt Answered calls" "nAbandoned t = countOf rt Abandoned calls"
    "nRetainedURA t = countOf rt RetainedUra calls" "nOther t = countOf rt Other calls"
    by (auto simp: emptyTally_def)
  then show ?thesis
    by (simp add: listKPIs_def)
qed

lemma calculateDayKPIs_list:
  assumes "isConfigured config" and "status < 400"
    and "\<forall>call\<in>set calls. \<exists>k. classifyCallStatus rt call = Inr k"
  shows "\<exists>k. calculateDayKPIs config (HttpResponse status (JArr calls)) rt now = Inr k
      \<and> totalCalls k = Num (int (length calls))
      \<and> answered k = Num (int (countOf rt Answered calls))
      \<and> abandoned k = Num (int (countOf rt Abandoned calls))
      \<and> retainedURA k = Num (int (countOf rt RetainedUra calls))
      \<and> other k = Num (int (countOf rt Other calls))"
proof (cases calls)
  case Nil
  then show ?thesis
    using assms(1,2)
    by (simp add: calculateDayKPIs_def calculateDayKPIs_try_def fetchTodayCalls_data zeroKPIs_def
        countOf_def)
next
  case (Cons c cs)
  from listKPIs_ok [OF assms(3), where now = now] obtain k where
    k: "listKPIs rt calls now = Inr k" and
    f: "totalCalls k = Num (int (length calls))"
      "answered k = Num (int (countOf rt Answered calls))"
      "abandoned k = Num (int (countOf rt Abandoned calls))"
      "retainedURA k = Num (int (countOf rt RetainedUra calls))"
      "other k = Num (int (countOf rt Other calls))"
    by blast
  have "calculateDayKPIs config (HttpResponse status (JArr calls)) rt now = Inr k"
    using assms(1,2) Cons k
    by (simp add: calculateDayKPIs_def calculateDayKPIs_try_def fetchTodayCalls_data)
  with f show ?thesis
    by blast
qed

lemma calculateDayKPIs_list_throws:
  assumes "isConfigured config" and "status < 400"
    and "\<exists>call\<in>set calls. \<exists>e. classifyCallStatus rt call = Inl e"
  shows "\<exists>e. calculateDayKPIs config (HttpResponse status (JArr calls)) rt now
           = Inr (zeroKPIs now (Some (message e)))"
proof -
  from assms(3) obtain c cs where ne: "calls = c # cs"
    by (cases calls) auto
  from tallyCalls_throws [OF assms(3), where t = emptyTally] obtain e where
    "tallyCalls rt calls emptyTally = Inl e"
    by blast
  then have "listKPIs rt calls now = Inl e"
    by (simp add: listKPIs_def)
  then have "calculateDayKPIs config (HttpResponse status (JArr calls)) rt now
           = Inr (zeroKPIs now (Some (message e)))"
    using assms(1,2) ne
    by (simp add: calculateDayKPIs_def calculateDayKPIs_try_def fetchTodayCalls_data)
  then show ?thesis
    by blast
qed

lemma getProp_propOf: "callData \<noteq> JNull \<Longrightarrow> callData \<noteq> JUndefined
    \<Longrightarrow> getProp callData k = Inr (propOf callData k)"
  by (cases callData) (simp_all add: propOf_def)

lemma wellFormedCall_status:
  assumes "wellFormedCall callData"
  shows "\<exists>s. statusText rt callData = Inr s"
proof -
  from assms have n: "callData \<noteq> JNull" "callData \<noteq> JUndefined"
    by (simp_all add: wellFormedCall_def)
  from assms obtain s where
    "jsOr (jsOr (propOf callData ''call_status'') (propOf callData ''status'')) (JStr []) = JStr s"
    by (auto simp: wellFormedCall_def split: jsval.splits)
  then show ?thesis
    by (simp add: statusText_def getProp_propOf [OF n])
qed

lemma not_wellFormedCall_throws:
  assumes "\<not> wellFormedCall callData"
  shows "\<exists>e. classifyCallStatus rt callData = Inl e"
proof (cases "callData = JNull \<or> callData = JUndefined")
  case True
  then show ?thesis
    by (auto simp: classifyCallStatus_def statusText_def)
next
  case False
  then have n: "callData \<noteq> JNull" "callData \<noteq> JUndefined"
    by simp_all
  with assms have "\<forall>s. jsOr (jsOr (propOf callData ''call_status'') (propOf callData ''status'')) (JStr [])
      \<noteq> JStr s"
    by (auto simp: wellFormedCall_def split: jsval.splits)
  then show ?thesis
    by (auto simp: classifyCallStatus_def statusText_def getProp_propOf [OF n] split: jsval.splits)
qed

lemma classify_firstMatch:
  "statusText rt callData = Inr s \<Longrightarrow> classifyCallStatus rt callData = Inr (firstMatch callData s)"
  by (simp add: classifyCallStatus_def firstMatch_def answeredFlag_def answeredMarker_def
      abandonedMarker_def ivrMarker_def emptyQueue_def Let_def)

lemma wellFormedCall_classifies:
  "wellFormedCall callData \<Longrightarrow> \<exists>k. classifyCallStatus rt callData = Inr k"
  using wellFormedCall_status classify_firstMatch by blast

text \<open>
  C4, as the code has it. A call record is an object whose status, when it has one, is
  text. Each such record is classified into exactly one of answered, abandoned, retained
  in the IVR and other, by the first test that matches: the answered flag, an answered
  marker in the status, an abandoned marker, an IVR marker or an empty queue, and other
  otherwise; any other element (\<open>null\<close>, or a status that is truthy and not text) makes the
  classification throw. For a list of call records the snapshot holds the four counts,
  they sum to the length of the list, and \<open>totalCalls\<close> is that length; a list with an
  element that is not a call record gives the all-zero snapshot of the \<open>catch\<close> block.
\<close>

theorem classification_of_call_records:
  assumes "isConfigured config" and "status < 400"
  shows
    "(\<forall>call. wellFormedCall call \<longrightarrow>
        (\<exists>s. statusText rt call = Inr s \<and> classifyCallStatus rt call = Inr (firstMatch call s)))
     \<and> (\<forall>call. \<not> wellFormedCall call \<longrightarrow> (\<exists>e. classifyCallStatus rt call = Inl e))
     \<and> ((\<forall>call\<in>set calls. wellFormedCall call) \<longrightarrow>
          (\<exists>k. calculateDayKPIs config (HttpResponse status (JArr calls)) rt now = Inr k
             \<and> totalCalls k = Num (int (length calls))
             \<and> answered k = Num (int (countOf rt Answered calls))
             \<and> abandoned k = Num (int (countOf rt Abandoned calls))
             \<and> retainedURA k = Num (int (countOf rt RetainedUra calls))
             \<and> other k = Num (int (countOf rt Other calls)))
          \<and> countOf rt Answered calls + countOf rt Abandoned calls + countOf rt RetainedUra calls
               + countOf rt Other calls = length calls)
     \<and> ((\<exists>call\<in>set calls. \<not> wellFormedCall call) \<longrightarrow>
          (\<exists>e. calculateDayKPIs config (HttpResponse status (JArr calls)) rt now
                 = Inr (zeroKPIs now (Some (message e)))))"
proof (intro conjI allI impI)
  fix call assume "wellFormedCall call"
  from wellFormedCall_status [OF this] obtain s where s: "statusText rt call = Inr s"
    by blast
  with classify_firstMatch [OF s]
  show "\<exists>s. statusText rt call = Inr s \<and> classifyCallStatus rt call = Inr (firstMatch call s)"
    by blast
next
  fix call assume "\<not> wellFormedCall call"
  then show "\<exists>e. classifyCallStatus rt call = Inl e"
    by (rule not_wellFormedCall_throws)
next
  assume "\<forall>call\<in>set calls. wellFormedCall call"
  then have all: "\<forall>call\<in>set calls. \<exists>k. classifyCallStatus rt call = Inr k"
    using wellFormedCall_classifies by blast
  from calculateDayKPIs_list [OF assms all]
  show "\<exists>k. calculateDayKPIs config (HttpResponse status (JArr calls)) rt now = Inr k
             \<and> totalCalls k = Num (int (length calls))
             \<and> answered k = Num (int (countOf rt Answered calls))
             \<and> abandoned k = Num (int (countOf rt Abandoned calls))
             \<and> retainedURA k = Num (int (countOf rt RetainedUra calls))
             \<and> other k = Num (int (countOf rt Other calls))" .
  from countOf_sum [OF all]
  show "countOf rt Answered calls + countOf rt Abandoned calls + countOf rt RetainedUra calls
               + countOf rt Other calls = length calls" .
next
  assume "\<exists>call\<in>set calls. \<not> wellFormedCall call"
  then have "\<exists>call\<in>set calls. \<exists>e. classifyCallStatus rt call = Inl e"
    using not_wellFormedCall_throws by blast
  from calculateDayKPIs_list_throws [OF assms this]
  show "\<exists>e. calculateDayKPIs config (HttpResponse status (JArr calls)) rt now
                 = Inr (zeroKPIs now (Some (message e)))" .
qed

theorem classification_of_call_records_witness:
  "isConfigured cfgOk \<and> (200::nat) < 400 \<and> list_all wellFormedCall exampleCalls
   \<and> map (classifyCallStatus rtNine) exampleCalls = [Inr Answered, Inr Abandoned, Inr RetainedUra, Inr Other]
   \<and> (\<exists>k. calculateDayKPIs cfgOk (HttpResponse 200 (JArr exampleCalls)) rtNine 7 = Inr k
         \<and> totalCalls k = Num 4 \<and> answered k = Num 1 \<and> abandoned k = Num 1
         \<and> retainedURA k = Num 1 \<and> other k = Num 1)"
proof -
  have c: "isConfigured cfgOk"
    by (simp add: isConfigured_def cfgOk_def)
  have s: "(200::nat) < 400"
    by simp
  have w: "list_all wellFormedCall exampleCalls"
    by code_simp
  then have w': "\<forall>call\<in>set exampleCalls. wellFormedCall call"
    by (simp add: list_all_iff)
  have m: "map (classifyCallStatus rtNine) exampleCalls = [Inr Answered, Inr Abandoned, Inr RetainedUra, Inr Other]"
    by code_simp
  have n: "countOf rtNine Answered exampleCalls = 1" "countOf rtNine Abandoned exampleCalls = 1"
    "countOf rtNine RetainedUra exampleCalls = 1" "countOf rtNine Other exampleCalls = 1"
    "length exampleCalls = 4"
    by code_simp+
  from classification_of_call_records [OF c s, where rt = rtNine and calls = exampleCalls and now = 7] w'
  have "\<exists>k. calculateDayKPIs cfgOk (HttpResponse 200 (JArr exampleCalls)) rtNine 7 = Inr k
             \<and> totalCalls k = Num (int (length exampleCalls))
             \<and> answered k = Num (int (countOf rtNine Answered exampleCalls))
             \<and> abandoned k = Num (int (countOf rtNine Abandoned exampleCalls))
             \<and> retainedURA k = Num (int (countOf rtNine RetainedUra exampleCalls))
             \<and> other k = Num (int (countOf rtNine Other exampleCalls))"
    by blast
  then have "\<exists>k. calculateDayKPIs cfgOk (HttpResponse 200 (JArr exampleCalls)) rtNine 7 = Inr k
         \<and> totalCalls k = Num 4 \<and> answered k = Num 1 \<and> abandoned k = Num 1
         \<and> retainedURA k = Num 1 \<and> other k = Num 1"
    by (simp add: n)
  with c s w m show ?thesis
    by blast
qed

text \<open>
  C4, as stated, fails: the record \<open>{call_status: 5, answered: true}\<close> carries the answered
  flag, yet \<open>toUpperCase\<close> throws on its status before the flag is tested; the record is in
  no class, and the snapshot of the list that holds it is all zero, with \<open>totalCalls\<close> 0 for
  a list of length 1.
\<close>

theorem classification_total_counterexample:
  "answeredFlag flaggedCall
   \<and> classifyCallStatus rtNine flaggedCall = Inl (TypeError ''toUpperCase is not a function'')
   \<and> calculateDayKPIs cfgOk (HttpResponse 200 (JArr [flaggedCall])) rtNine 7
        = Inr (zeroKPIs 7 (Some ''toUpperCase is not a function''))
   \<and> totalCalls (zeroKPIs 7 (Some ''toUpperCase is not a function'')) \<noteq> Num (int (length [flaggedCall]))"
  by code_simp

lemma fetchTodayCalls_null:
  assumes "\<not> isConfigured config \<or> (\<exists>m. outcome = NetworkFailure m)
        \<or> (\<exists>s b. outcome = HttpResponse s b \<and> (400 \<le> s \<or> \<not> truthy b \<or> b = JArr []))"
  shows "fetchTodayCalls config outcome = JNull \<or> fetchTodayCalls config outcome = JArr []"
  using assms by (auto simp: fetchTodayCalls_def axiosGet_def split: if_splits)

text \<open>
  C1. When the provider gives no data (the client is not configured, the request fails,
  the status is 400 or more, the body is falsy or an empty list), \<open>calculateDayKPIs\<close>
  returns the snapshot with every count and the average wait zero and no peak hour. It
  never throws: an exception inside it is turned into that same all-zero snapshot, with
  the message of the exception.
\<close>

theorem calculateDayKPIs_no_data:
  "((\<not> isConfigured config \<or> (\<exists>m. outcome = NetworkFailure m)
        \<or> (\<exists>s b. outcome = HttpResponse s b \<and> (400 \<le> s \<or> \<not> truthy b \<or> b = JArr [])))
      \<longrightarrow> calculateDayKPIs config outcome rt now = Inr (zeroKPIs now None))
   \<and> (\<forall>e. calculateDayKPIs_try config outcome rt now = Inl e
          \<longrightarrow> calculateDayKPIs config outcome rt now = Inr (zeroKPIs now (Some (message e))))
   \<and> (\<exists>k. calculateDayKPIs config outcome rt now = Inr k)
   \<and> totalCalls (zeroKPIs now err) = Num 0 \<and> answered (zeroKPIs now err) = Num 0
   \<and> abandoned (zeroKPIs now err) = Num 0 \<and> retainedURA (zeroKPIs now err) = Num 0
   \<and> other (zeroKPIs now err) = Num 0 \<and> avgWaitTime (zeroKPIs now err) = Num 0
   \<and> peakHour (zeroKPIs now err) = None"
proof (intro conjI impI allI)
  assume "\<not> isConfigured config \<or> (\<exists>m. outcome = NetworkFailure m)
        \<or> (\<exists>s b. outcome = HttpResponse s b \<and> (400 \<le> s \<or> \<not> truthy b \<or> b = JArr []))"
  from fetchTodayCalls_null [OF this]
  have "calculateDayKPIs_try config outcome rt now = Inr (zeroKPIs now None)"
    by (auto simp: calculateDayKPIs_try_def)
  then show "calculateDayKPIs config outcome rt now = Inr (zeroKPIs now None)"
    by (simp add: calculateDayKPIs_def)
next
  fix e assume "calculateDayKPIs_try config outcome rt now = Inl e"
  then show "calculateDayKPIs config outcome rt now = Inr (zeroKPIs now (Some (message e)))"
    by (simp add: calculateDayKPIs_def)
next
  show "\<exists>k. calculateDayKPIs config outcome rt now = Inr k"
    by (simp add: calculateDayKPIs_def split: sum.split)
qed (simp_all add: zeroKPIs_def)

theorem calculateDayKPIs_no_data_witness:
  "calculateDayKPIs cfgOk (HttpResponse 200 JNull) rtNine 7 = Inr (zeroKPIs 7 None)
   \<and> calculateDayKPIs cfgOk (NetworkFailure ''timeout'') rtNine 7 = Inr (zeroKPIs 7 None)
   \<and> calculateDayKPIs cfgOk (HttpResponse 404 (JObj [])) rtNine 7 = Inr (zeroKPIs 7 None)
   \<and> calculateDayKPIs cfgOk (HttpResponse 200 (JArr [])) rtNine 7 = Inr (zeroKPIs 7 None)
   \<and> calculateDayKPIs_try cfgOk (HttpResponse 200 (JArr [JNull])) rtNine 7
        = Inl (TypeError ''Cannot read properties of null'')
   \<and> calculateDayKPIs cfgOk (HttpResponse 200 (JArr [JNull])) rtNine 7
        = Inr (zeroKPIs 7 (Some ''Cannot read properties of null''))"
proof -
  have t: "calculateDayKPIs_try cfgOk (HttpResponse 200 (JArr [JNull])) rtNine 7
        = Inl (TypeError ''Cannot read properties of null'')"
    by code_simp
  show ?thesis
    using calculateDayKPIs_no_data [of cfgOk "HttpResponse 200 JNull" rtNine 7]
      calculateDayKPIs_no_data [of cfgOk "NetworkFailure ''timeout''" rtNine 7]
      calculateDayKPIs_no_data [of cfgOk "HttpResponse 404 (JObj [])" rtNine 7]
      calculateDayKPIs_no_data [of cfgOk "HttpResponse 200 (JArr [])" rtNine 7]
      calculateDayKPIs_no_data [of cfgOk "HttpResponse 200 (JArr [JNull])" rtNine 7] t
    by simp
qed

subsection \<open>The day cache\<close>

lemma addCall_True:
  assumes "addCall callData now store = (store', True)"
  shows "metaFiles store' (dayOf now)
           = Some (MetaJson \<lparr> createdAt = now, expiresAt = now + 90000 * 1000, ttl = 90000 \<rparr>)"
    and "callsFiles store' (dayOf now) \<noteq> None"
  using assms
  by (auto simp: addCall_def updateMetadata_def DEFAULT_TTL_def Let_def split: jsval.splits)

lemma hasCache_live:
  assumes "callsFiles store day \<noteq> None" and "metaFiles store day = Some (MetaJson m)"
    and "now \<le> expiresAt m"
  shows "hasCache day now store = (store, True)"
  using assms by (auto simp: hasCache_def readExpiry_def)

lemma hasCache_expired:
  assumes "callsFiles store day \<noteq> None" and "metaFiles store day = Some (MetaJson m)"
    and "expiresAt m < now"
  shows "hasCache day now store = (unlinkBoth day store, False)"
  using assms by (auto simp: hasCache_def readExpiry_def)

text \<open>
  C8. A successful \<open>addCall\<close> at instant \<open>now\<close> leaves the metadata of the day expiring at
  \<open>now\<close> plus 25 hours (90000 seconds), whatever the metadata was, and so does every later
  successful write from its own instant. Up to that expiry \<open>hasCache\<close> for the day answers
  \<open>true\<close> and changes nothing; the first query after it answers \<open>false\<close> and removes both
  the file of calls and the metadata of the day (a further query is \<open>false\<close> as well).
\<close>

theorem addCall_sliding_ttl:
  assumes "addCall callData now store = (store', True)"
  shows "metaFiles store' (dayOf now)
           = Some (MetaJson \<lparr> createdAt = now, expiresAt = now + 90000 * 1000, ttl = 90000 \<rparr>)
    \<and> (\<forall>t. t \<le> now + 90000 * 1000 \<longrightarrow> hasCache (dayOf now) t store' = (store', True))
    \<and> (\<forall>t. now + 90000 * 1000 < t \<longrightarrow>
          (\<exists>store''. hasCache (dayOf now) t store' = (store'', False)
             \<and> callsFiles store'' (dayOf now) = None \<and> metaFiles store'' (dayOf now) = None
             \<and> hasCache (dayOf now) t store'' = (store'', False)))
    \<and> (\<forall>callData2 now2 store2. addCall callData2 now2 store' = (store2, True) \<longrightarrow>
          metaFiles store2 (dayOf now2)
            = Some (MetaJson \<lparr> createdAt = now2, expiresAt = now2 + 90000 * 1000, ttl = 90000 \<rparr>))"
proof (intro conjI allI impI)
  note a = addCall_True [OF assms]
  show "metaFiles store' (dayOf now)
           = Some (MetaJson \<lparr> createdAt = now, expiresAt = now + 90000 * 1000, ttl = 90000 \<rparr>)"
    by (rule a(1))
  show "hasCache (dayOf now) t store' = (store', True)" if "t \<le> now + 90000 * 1000" for t
    using hasCache_live [OF a(2) a(1)] that by simp
  show "\<exists>store''. hasCache (dayOf now) t store' = (store'', False)
             \<and> callsFiles store'' (dayOf now) = None \<and> metaFiles store'' (dayOf now) = None
             \<and> hasCache (dayOf now) t store'' = (store'', False)"
    if "now + 90000 * 1000 < t" for t
  proof -
    have "hasCache (dayOf now) t store' = (unlinkBoth (dayOf now) store', False)"
      using hasCache_expired [OF a(2) a(1)] that by simp
    moreover have "callsFiles (unlinkBoth (dayOf now) store') (dayOf now) = None"
      "metaFiles (unlinkBoth (dayOf now) store') (dayOf now) = None"
      by (simp_all add: unlinkBoth_def)
    moreover from this have "hasCache (dayOf now) t (unlinkBoth (dayOf now) store')
        = (unlinkBoth (dayOf now) store', False)"
      by (simp add: hasCache_def)
    ultimately show ?thesis
      by blast
  qed
  show "metaFiles store2 (dayOf now2)
            = Some (MetaJson \<lparr> createdAt = now2, expiresAt = now2 + 90000 * 1000, ttl = 90000 \<rparr>)"
    if "addCall callData2 now2 store' = (store2, True)" for callData2 now2 store2
    using addCall_True(1) [OF that] .
qed

theorem addCall_sliding_ttl_witness:
  "snd (addCall [(''call_id'', JStr ''a1'')] 1000 emptyStore) = True
   \<and> metaFiles (fst (addCall [(''call_id'', JStr ''a1'')] 1000 emptyStore)) 0
       = Some (MetaJson \<lparr> createdAt = 1000, expiresAt = 90001000, ttl = 90000 \<rparr>)
   \<and> snd (hasCache 0 90001000 (fst (addCall [(''call_id'', JStr ''a1'')] 1000 emptyStore))) = True
   \<and> snd (hasCache 0 90001001 (fst (addCall [(''call_id'', JStr ''a1'')] 1000 emptyStore))) = False
   \<and> callsFiles (fst (hasCache 0 90001001 (fst (addCall [(''call_id'', JStr ''a1'')] 1000 emptyStore)))) 0 = None"
proof -
  define s1 where "s1 = fst (addCall [(''call_id'', JStr ''a1'')] 1000 emptyStore)"
  have ok: "addCall [(''call_id'', JStr ''a1'')] 1000 emptyStore = (s1, True)"
    by (simp add: s1_def addCall_def readCalls_def emptyStore_def)
  have d: "dayOf 1000 = 0"
    by (simp add: dayOf_def)
  note th = addCall_sliding_ttl [OF ok, unfolded d]
  from th have m: "metaFiles s1 0 = Some (MetaJson \<lparr> createdAt = 1000, expiresAt = 90001000, ttl = 90000 \<rparr>)"
    by simp
  from th have "90001000 \<le> (1000::int) + 90000 * 1000 \<longrightarrow> hasCache 0 90001000 s1 = (s1, True)"
    by blast
  then have live: "snd (hasCache 0 90001000 s1) = True"
    by simp
  from th have "(1000::int) + 90000 * 1000 < 90001001 \<longrightarrow>
          (\<exists>store''. hasCache 0 90001001 s1 = (store'', False)
             \<and> callsFiles store'' 0 = None \<and> metaFiles store'' 0 = None
             \<and> hasCache 0 90001001 store'' = (store'', False))"
    by blast
  then have dead: "snd (hasCache 0 90001001 s1) = False \<and> callsFiles (fst (hasCache 0 90001001 s1)) 0 = None"
    by auto
  from ok m live dead show ?thesis
    unfolding s1_def [symmetric] by simp
qed

text \<open>
  C10. When the file of calls of a day exists and its metadata is missing or cannot be
  read (or holds no date), \<open>hasCache\<close> answers \<open>true\<close> at every instant and deletes
  nothing: no expiry is checked.
\<close>

theorem hasCache_without_metadata:
  assumes "callsFiles store day \<noteq> None"
    and "metaFiles store day = None \<or> metaFiles store day = Some MetaUnreadable
         \<or> metaFiles store day = Some MetaInvalidDate"
  shows "hasCache day now store = (store, True)"
  using assms by (auto simp: hasCache_def readExpiry_def)

theorem hasCache_without_metadata_witness:
  "callsFiles orphanStore 3 \<noteq> None \<and> metaFiles orphanStore 3 = None
   \<and> hasCache 3 999999999999 orphanStore = (orphanStore, True)"
proof -
  have c: "callsFiles orphanStore 3 \<noteq> None"
    by (simp add: orphanStore_def)
  have m: "metaFiles orphanStore 3 = None"
    by (simp add: orphanStore_def)
  from hasCache_without_metadata [OF c, of 999999999999] m c show ?thesis
    by simp
qed

subsection \<open>The next run\<close>

lemma validHHMM_cases:
  assumes "validHHMM s"
  obtains h1 h2 m1 m2 where "s = [h1, h2, CHR '':'', m1, m2]"
    "isDigit h1" "isDigit h2" "isDigit m1" "isDigit m2"
    "digitOf h1 * 10 + digitOf h2 \<le> 23" "digitOf m1 * 10 + digitOf m2 \<le> 59"
  using assms by (cases s rule: validHHMM.cases) auto

lemma isDigit_not_colon: "isDigit c \<Longrightarrow> c \<noteq> CHR '':''"
  by (auto simp: isDigit_def)

lemma digit_less: "isDigit a \<Longrightarrow> isDigit b \<Longrightarrow> a < b \<longleftrightarrow> digitOf a < digitOf b"
  by (auto simp: isDigit_def digitOf_def less_char_def)

lemma digit_eq: "isDigit a \<Longrightarrow> isDigit b \<Longrightarrow> a = b \<longleftrightarrow> digitOf a = digitOf b"
proof
  assume "isDigit a" and "isDigit b" and "digitOf a = digitOf b"
  then have "(of_char a :: nat) = of_char b"
    unfolding isDigit_def digitOf_def by arith
  then show "a = b"
    by (simp only: of_char_eq_iff)
qed simp

lemma digit_le9: "isDigit a \<Longrightarrow> digitOf a \<le> 9"
  by (auto simp: isDigit_def digitOf_def)

lemma lex_minutes:
  fixes A B C D A' B' C' D' :: nat
  assumes "B \<le> 9" "C * 10 + D \<le> 59" "D \<le> 9"
    and "A < A' \<or> A = A' \<and> (B < B' \<or> B = B' \<and> (C < C' \<or> C = C' \<and> D < D'))"
  shows "(A * 10 + B) * 60 + C * 10 + D < (A' * 10 + B') * 60 + C' * 10 + D'"
proof -
  consider "A < A'" | "A = A'" "B < B'" | "A = A'" "B = B'" "C < C'"
    | "A = A'" "B = B'" "C = C'" "D < D'"
    using assms(4) by blast
  then show ?thesis
  proof cases
    case 1
    then have "A + 1 \<le> A'" by simp
    then have "(A + 1) * 600 \<le> A' * 600" by (rule mult_le_mono1)
    with assms(1,2) show ?thesis by simp
  next
    case 2
    then have "B + 1 \<le> B'" by simp
    then have "(B + 1) * 60 \<le> B' * 60" by (rule mult_le_mono1)
    with assms(2) 2(1) show ?thesis by simp
  next
    case 3
    then have "C + 1 \<le> C'" by simp
    then have "(C + 1) * 10 \<le> C' * 10" by (rule mult_le_mono1)
    with assms(3) 3(1,2) show ?thesis by simp
  next
    case 4
    then show ?thesis by simp
  qed
qed

lemma lex5:
  "[a, b, x, c, d] < [a', b', x, c', d']
     \<longleftrightarrow> a < a' \<or> a = a' \<and> (b < b' \<or> b = b' \<and> (c < c' \<or> c = c' \<and> d < d'))"
  for a :: char
  by simp

lemma minuteOfDay_strict_mono:
  assumes "validHHMM s" and "validHHMM t" and "s < t"
  shows "minuteOfDay s < minuteOfDay t"
proof -
  from assms(1) obtain a b c d where s: "s = [a, b, CHR '':'', c, d]"
    and ds: "isDigit a" "isDigit b" "isDigit c" "isDigit d"
    and bs: "digitOf c * 10 + digitOf d \<le> 59"
    by (rule validHHMM_cases)
  from assms(2) obtain a' b' c' d' where t: "t = [a', b', CHR '':'', c', d']"
    and dt: "isDigit a'" "isDigit b'" "isDigit c'" "isDigit d'"
    by (rule validHHMM_cases)
  from assms(3) have "a < a' \<or> a = a' \<and> (b < b' \<or> b = b' \<and> (c < c' \<or> c = c' \<and> d < d'))"
    unfolding s t by (simp only: lex5)
  then have "digitOf a < digitOf a'
      \<or> digitOf a = digitOf a' \<and> (digitOf b < digitOf b'
      \<or> digitOf b = digitOf b' \<and> (digitOf c < digitOf c'
      \<or> digitOf c = digitOf c' \<and> digitOf d < digitOf d'))"
    using digit_less [OF ds(1) dt(1)] digit_less [OF ds(2) dt(2)]
        digit_less [OF ds(3) dt(3)] digit_less [OF ds(4) dt(4)]
    by blast
  from lex_minutes [OF digit_le9 [OF ds(2)] bs digit_le9 [OF ds(4)] this]
  show ?thesis
    by (simp add: s t)
qed

lemma minuteOfDay_mono:
  assumes "validHHMM s" and "validHHMM t" and "s \<le> t"
  shows "minuteOfDay s \<le> minuteOfDay t"
proof (cases "s = t")
  case True
  then show ?thesis by simp
next
  case False
  with assms(3) have "s < t"
    by simp
  from minuteOfDay_strict_mono [OF assms(1,2) this] show ?thesis
    by simp
qed

lemma sorted_minutes:
  assumes "\<forall>s\<in>set xs. validHHMM s"
  shows "sorted (map minuteOfDay (sort xs))"
proof -
  have "sorted_wrt (\<lambda>s t. s \<le> t) (sort xs)"
    by simp
  then have "sorted_wrt (\<lambda>s t. minuteOfDay s \<le> minuteOfDay t) (sort xs)"
  proof (rule sorted_wrt_mono_rel [rotated])
    fix s t assume "s \<in> set (sort xs)" "t \<in> set (sort xs)" "s \<le> t"
    with assms show "minuteOfDay s \<le> minuteOfDay t"
      by (simp add: minuteOfDay_mono)
  qed
  then show ?thesis
    by (simp add: sorted_map)
qed

lemma splitOn_digits2: "isDigit a \<Longrightarrow> isDigit b \<Longrightarrow> splitOn CHR '':'' [a, b] = [[a, b]]"
  by (simp add: isDigit_not_colon)

lemma splitOn_valid:
  assumes "isDigit h1" "isDigit h2" "isDigit m1" "isDigit m2"
  shows "splitOn CHR '':'' [h1, h2, CHR '':'', m1, m2] = [[h1, h2], [m1, m2]]"
  using assms by (simp add: isDigit_not_colon)

lemma setHours_valid:
  assumes "validHHMM s"
  shows "setHours midnight (parseTime s) = DateMs (midnight + minuteOfDay s * 60000)"
proof -
  from assms obtain a b c d where s: "s = [a, b, CHR '':'', c, d]"
    and ds: "isDigit a" "isDigit b" "isDigit c" "isDigit d"
    by (rule validHHMM_cases)
  have p: "parseTime s = (Num (int (digitOf a * 10 + digitOf b)), Num (int (digitOf c * 10 + digitOf d)))"
    unfolding s parseTime_def splitOn_valid [OF ds]
    using ds by (simp add: toNumber_def)
  show ?thesis
    unfolding p by (simp add: setHours_def s algebra_simps)
qed


lemma minuteOfDay_nonneg: "validHHMM s \<Longrightarrow> 0 \<le> minuteOfDay s"
  by (erule validHHMM_cases) simp

lemma firstAfter_find:
  assumes "\<forall>s\<in>set ys. validHHMM s"
  shows "firstAfter today now ys
     = map_option (\<lambda>m. DateMs (today + m * 60000))
         (find (\<lambda>m. today + m * 60000 > now) (map minuteOfDay ys))"
  using assms
  by (induction ys) (simp_all add: setHours_valid isAfter_def Let_def)

lemma find_sorted_Min:
  fixes zs :: "int list"
  assumes "sorted zs"
  shows "find P zs = (if \<exists>z\<in>set zs. P z then Some (Min {z \<in> set zs. P z}) else None)"
  using assms
proof (induction zs)
  case Nil
  show ?case by simp
next
  case (Cons z zs)
  then have le: "\<forall>y\<in>set zs. z \<le> y" and srt: "sorted zs"
    by simp_all
  show ?case
  proof (cases "P z")
    case True
    have "Min {x \<in> set (z # zs). P x} = z"
    proof (rule Min_eqI)
      show "finite {x \<in> set (z # zs). P x}" by simp
      show "z \<le> y" if "y \<in> {x \<in> set (z # zs). P x}" for y
        using that le by auto
      show "z \<in> {x \<in> set (z # zs). P x}"
        using True by simp
    qed
    with True show ?thesis
      by auto
  next
    case False
    then have "{x \<in> set (z # zs). P x} = {x \<in> set zs. P x}"
      by auto
    with False Cons.IH [OF srt] show ?thesis
      by auto
  qed
qed

lemma hd_sorted_Min:
  fixes zs :: "int list"
  assumes "sorted zs" and "zs \<noteq> []"
  shows "hd zs = Min (set zs)"
proof -
  from assms(2) obtain z rest where zs: "zs = z # rest"
    by (cases zs) auto
  with assms(1) have "\<forall>y\<in>set rest. z \<le> y"
    by simp
  then have "Min (set (z # rest)) = z"
    by (intro Min_eqI) auto
  then show ?thesis
    by (simp add: zs)
qed

lemma today_bounds: "(now div 86400000) * 86400000 \<le> now \<and> now < (now div 86400000) * 86400000 + 86400000"
  for now :: int
proof -
  have "now = (now div 86400000) * 86400000 + now mod 86400000"
    by simp
  moreover have "0 \<le> now mod 86400000" and "now mod 86400000 < 86400000"
    by simp_all
  ultimately show ?thesis
    by linarith
qed

text \<open>
  C7. For a schedule of at least one time, all of the form \<open>HH:MM\<close>, and any instant
  \<open>now\<close>, \<open>getNextRun\<close> returns the earliest scheduled time of day that is strictly after
  \<open>now\<close> today or, when none is left today, the earliest scheduled time tomorrow; the
  result is after \<open>now\<close>. The schedule is left sorted.
\<close>

theorem getNextRun_next_occurrence:
  assumes "scheduledTimes \<noteq> []" and "\<forall>s\<in>set scheduledTimes. validHHMM s"
  shows "getNextRun scheduledTimes now
           = (Inr (DateMs (nextOccurrence (minuteOfDay ` set scheduledTimes) now)), sort scheduledTimes)
         \<and> now < nextOccurrence (minuteOfDay ` set scheduledTimes) now"
proof -
  define today where "today = (now div 86400000) * 86400000"
  define ys where "ys = sort scheduledTimes"
  define zs where "zs = map minuteOfDay ys"
  define M where "M = minuteOfDay ` set scheduledTimes"
  define left where "left = {m \<in> M. today + m * 60000 > now}"
  have v: "\<forall>s\<in>set ys. validHHMM s"
    using assms(2) by (simp add: ys_def)
  have "length ys = length scheduledTimes"
    by (simp add: ys_def)
  with assms(1) have ne: "ys \<noteq> []"
    by auto
  have srt: "sorted zs"
    unfolding zs_def ys_def by (rule sorted_minutes [OF assms(2)])
  have setzs: "set zs = M"
    by (simp add: zs_def ys_def M_def)
  have fin: "finite M" and neM: "M \<noteq> {}"
    using assms(1) by (simp_all add: M_def)
  have fa: "firstAfter today now ys
     = (if left \<noteq> {} then Some (DateMs (today + Min left * 60000)) else None)"
  proof -
    have "{z \<in> set zs. today + z * 60000 > now} = left"
      by (simp add: left_def setzs)
    moreover have "(\<exists>z\<in>set zs. today + z * 60000 > now) \<longleftrightarrow> left \<noteq> {}"
      by (auto simp: left_def setzs)
    ultimately show ?thesis
      unfolding firstAfter_find [OF v] zs_def [symmetric]
        find_sorted_Min [OF srt, of "\<lambda>m. today + m * 60000 > now"]
      by simp
  qed
  have nx: "nextOccurrence M now
      = (if left \<noteq> {} then today + Min left * 60000 else today + 86400000 + Min M * 60000)"
    by (simp only: nextOccurrence_def Let_def today_def left_def)
  have g: "getNextRun scheduledTimes now
      = (case firstAfter today now ys of
           Some scheduled \<Rightarrow> (Inr scheduled, ys)
         | None \<Rightarrow>
             (case ys of
                [] \<Rightarrow> (Inl (TypeError ''Cannot read properties of undefined (reading split)''), ys)
              | time # later \<Rightarrow> (Inr (setHours (today + 86400000) (parseTime time)), ys)))"
    by (simp only: getNextRun_def Let_def today_def ys_def)
  have run: "getNextRun scheduledTimes now = (Inr (DateMs (nextOccurrence M now)), ys)"
  proof (cases "left = {}")
    case False
    with fa have "firstAfter today now ys = Some (DateMs (today + Min left * 60000))"
      by simp
    with False show ?thesis
      by (simp add: g nx)
  next
    case True
    with fa have none: "firstAfter today now ys = None"
      by simp
    from ne obtain t later where ys: "ys = t # later"
      by (cases ys) auto
    have "validHHMM t"
      using v by (simp add: ys)
    note sh = setHours_valid [OF this, of "today + 86400000"]
    have "minuteOfDay t = hd zs"
      by (simp add: zs_def ys)
    also have "\<dots> = Min (set zs)"
      by (rule hd_sorted_Min [OF srt]) (simp add: zs_def ne)
    also have "\<dots> = Min M"
      by (simp only: setzs)
    finally have m: "minuteOfDay t = Min M" .
    have "getNextRun scheduledTimes now
        = (Inr (setHours (today + 86400000) (parseTime t)), ys)"
      unfolding g none by (simp add: ys)
    with True show ?thesis
      by (simp add: sh m nx)
  qed
  have fut: "now < nextOccurrence M now"
  proof (cases "left = {}")
    case False
    have "finite left"
      using fin by (simp add: left_def)
    from Min_in [OF this False] have "Min left \<in> left" .
    then have "now < today + Min left * 60000"
      by (simp add: left_def)
    with False show ?thesis
      by (simp add: nx)
  next
    case True
    have "Min M \<in> M"
      using fin neM by (rule Min_in)
    then obtain x where "x \<in> set scheduledTimes" and "Min M = minuteOfDay x"
      unfolding M_def by blast
    with assms(2) have "0 \<le> Min M"
      by (simp add: minuteOfDay_nonneg)
    have "now < today + 86400000"
      using today_bounds [of now] by (simp add: today_def)
    from this \<open>0 \<le> Min M\<close> show ?thesis
      using True by (simp add: nx)
  qed
  from run fut show ?thesis
    by (simp add: M_def ys_def)
qed

theorem getNextRun_next_occurrence_witness:
  "[''09:00'', ''18:00''] \<noteq> [] \<and> list_all validHHMM [''09:00'', ''18:00'']
   \<and> nextOccurrence (minuteOfDay ` set [''09:00'', ''18:00'']) (5 * 86400000 + 10 * 3600000)
        = 5 * 86400000 + 18 * 3600000
   \<and> nextOccurrence (minuteOfDay ` set [''09:00'', ''18:00'']) (5 * 86400000 + 19 * 3600000)
        = 6 * 86400000 + 9 * 3600000
   \<and> fst (getNextRun [''18:00'', ''09:00''] (5 * 86400000 + 19 * 3600000))
        = Inr (DateMs (6 * 86400000 + 9 * 3600000))"
proof -
  have ne: "[''09:00'', ''18:00''] \<noteq> []"
    by simp
  have va: "list_all validHHMM [''09:00'', ''18:00'']"
    by (simp add: isDigit_def digitOf_def)
  then have v: "\<forall>s\<in>set [''09:00'', ''18:00'']. validHHMM s"
    by (simp only: list_all_iff)
  have r1: "getNextRun [''09:00'', ''18:00''] (5 * 86400000 + 10 * 3600000)
      = (Inr (DateMs (5 * 86400000 + 18 * 3600000)), [''09:00'', ''18:00''])"
    by code_simp
  have r2: "getNextRun [''09:00'', ''18:00''] (5 * 86400000 + 19 * 3600000)
      = (Inr (DateMs (6 * 86400000 + 9 * 3600000)), [''09:00'', ''18:00''])"
    by code_simp
  have r3: "fst (getNextRun [''18:00'', ''09:00''] (5 * 86400000 + 19 * 3600000))
        = Inr (DateMs (6 * 86400000 + 9 * 3600000))"
    by code_simp
  from getNextRun_next_occurrence [OF ne v, of "5 * 86400000 + 10 * 3600000"] r1
  have n1: "nextOccurrence (minuteOfDay ` set [''09:00'', ''18:00'']) (5 * 86400000 + 10 * 3600000)
        = 5 * 86400000 + 18 * 3600000"
    by simp
  from getNextRun_next_occurrence [OF ne v, of "5 * 86400000 + 19 * 3600000"] r2
  have n2: "nextOccurrence (minuteOfDay ` set [''09:00'', ''18:00'']) (5 * 86400000 + 19 * 3600000)
        = 6 * 86400000 + 9 * 3600000"
    by simp
  from ne va n1 n2 r3 show ?thesis
    by blast
qed

subsection \<open>Running a report\<close>

lemma hd_addToHistory: "hd (addToHistory e h) = e"
  by (cases h) (simp_all add: addToHistory_def Let_def)

lemma executeReport_catch_record:
  "\<exists>st'. executeReport_catch env e st =
      (st', Inr \<lparr> timestamp = stamp env, execSuccess = False, execKpis = None,
                  duration = endTime env - startTime env, messageId = None,
                  execError = Some (ErrorMessage (message e)) \<rparr>)
     \<and> executionHistory st' = addToHistory
          \<lparr> timestamp = stamp env, execSuccess = False, execKpis = None,
            duration = endTime env - startTime env, messageId = None,
            execError = Some (ErrorMessage (message e)) \<rparr> (executionHistory st)"
  by (simp add: executeReport_catch_def Let_def)

text \<open>
  C5. Every run of \<open>executeReport\<close> returns an execution record, never an exception,
  and has put that record first in the history. Its duration is the time elapsed since
  the start. When a step throws, the record has \<open>success = false\<close>, the message of the
  error and no KPIs; when no step throws it has the success flag and the error of the
  dispatch and the KPIs that were computed.
\<close>

theorem executeReport_always_records:
  "\<exists>execution st'. executeReport env st = (st', Inr execution)
      \<and> executionHistory st' = addToHistory execution (executionHistory st)
      \<and> hd (getHistory (executionHistory st')) = execution
      \<and> duration execution = endTime env - startTime env
      \<and> (\<forall>e. throwsAt env e \<longrightarrow>
            execSuccess execution = False \<and> execError execution = Some (ErrorMessage (message e))
            \<and> execKpis execution = None)
      \<and> (\<forall>k a result. kpisStep env = Inr k \<and> analiseStep env = Inr a \<and> sendStep env k a = Inr result
            \<longrightarrow> execSuccess execution = success result \<and> execError execution = sendError result
                \<and> execKpis execution = Some k)"
proof (cases "kpisStep env")
  case (Inl e)
  from executeReport_catch_record [of env e "st\<lparr> clients := broadcastLog LogIniciando Info (clients st) \<rparr>"]
  show ?thesis
    using Inl by (auto simp: executeReport_def throwsAt_def Let_def getHistory_def hd_addToHistory)
next
  case k: (Inr k)
  show ?thesis
  proof (cases "analiseStep env")
    case (Inl e)
    from executeReport_catch_record [of env e
        "st\<lparr> clients := broadcastLog LogBuscandoAnalise Info
              (broadcastLog (LogKpisCalculados (totalCalls k)) Info
                 (broadcastLog LogIniciando Info (clients st))) \<rparr>"]
    show ?thesis
      using k Inl by (auto simp: executeReport_def throwsAt_def Let_def getHistory_def hd_addToHistory)
  next
    case a: (Inr a)
    show ?thesis
    proof (cases "sendStep env k a")
      case (Inl e)
      from executeReport_catch_record [of env e
          "st\<lparr> clients := broadcastLog LogBuscandoAnalise Info
                (broadcastLog (LogKpisCalculados (totalCalls k)) Info
                   (broadcastLog LogIniciando Info (clients st))) \<rparr>"]
      show ?thesis
        using k a Inl by (auto simp: executeReport_def throwsAt_def Let_def getHistory_def hd_addToHistory)
    next
      case (Inr result)
      then show ?thesis
        using k a by (simp add: executeReport_def throwsAt_def Let_def getHistory_def hd_addToHistory)
    qed
  qed
qed

theorem executeReport_always_records_witness:
  "throwsAt envThrow (OtherError ''boom'')
   \<and> (\<exists>execution st'. executeReport envThrow noViewers = (st', Inr execution)
         \<and> executionHistory st' = [execution]
         \<and> execSuccess execution = False \<and> execError execution = Some (ErrorMessage ''boom'')
         \<and> duration execution = 250 \<and> execKpis execution = None)"
proof -
  have t: "throwsAt envThrow (OtherError ''boom'')"
    by (simp add: throwsAt_def envThrow_def)
  from executeReport_always_records [of envThrow noViewers]
  obtain execution st' where r: "executeReport envThrow noViewers = (st', Inr execution)"
    and h: "executionHistory st' = addToHistory execution (executionHistory noViewers)"
    and d: "duration execution = endTime envThrow - startTime envThrow"
    and f: "\<forall>e. throwsAt envThrow e \<longrightarrow>
            execSuccess execution = False \<and> execError execution = Some (ErrorMessage (message e))
            \<and> execKpis execution = None"
    by blast
  from f t have "execSuccess execution = False \<and> execError execution = Some (ErrorMessage ''boom'')
            \<and> execKpis execution = None"
    by fastforce
  moreover from h have "executionHistory st' = [execution]"
    by (simp add: noViewers_def addToHistory_def)
  moreover from d have "duration execution = 250"
    by (simp add: envThrow_def)
  ultimately show ?thesis
    using t r by blast
qed

subsection \<open>Dispatching a report\<close>

lemma sendRelatorio_unconfigured:
  "\<not> isConfiguredWA config
     \<Longrightarrow> sendRelatorio config respond now k analiseArg st = (sendFailed ApiNaoConfigurada, st)"
  by (simp add: sendRelatorio_def)

lemma sendRelatorio_first_fails:
  assumes "isConfiguredWA config"
    and "respond (PostEnviarRelatorio (relatorioPayload config now k)) = Inl e"
  shows "sendRelatorio config respond now k analiseArg st
     = (sendFailed (ErrorMessage (message e)),
        st\<lparr> posted := posted st @ [(waClock st, PostEnviarRelatorio (relatorioPayload config now k))] \<rparr>)"
  using assms by (simp add: sendRelatorio_def apiPost_def)

lemma sendRelatorio_no_analise:
  assumes "isConfiguredWA config"
    and "respond (PostEnviarRelatorio (relatorioPayload config now k)) = Inr d"
    and "\<not> hasAnalise analiseArg"
  shows "sendRelatorio config respond now k analiseArg st
     = (sendOk d,
        st\<lparr> posted := posted st @ [(waClock st, PostEnviarRelatorio (relatorioPayload config now k))] \<rparr>)"
  using assms by (simp add: sendRelatorio_def apiPost_def)

lemma sendRelatorio_with_analise:
  assumes "isConfiguredWA config"
    and "respond (PostEnviarRelatorio (relatorioPayload config now k)) = Inr d"
    and "analise a = Some niveis" and "historicoDe a = Some h"
  shows "sendRelatorio config respond now k (Some a) st
     = (sendOk d,
        st\<lparr> posted := posted st @
               [(waClock st, PostEnviarRelatorio (relatorioPayload config now k)),
                (waClock st + 2000, PostEnviar (destination config) (AnaliseMsg (analiseMensagem a niveis h)))],
            waClock := waClock st + 2000 \<rparr>)"
  using assms
  by (cases "respond (PostEnviar (destination config) (AnaliseMsg (analiseMensagem a niveis h)))")
     (simp_all add: sendRelatorio_def apiPost_def hasAnalise_def sendAnaliseHistorica_def
        sendMessage_def Let_def)

text \<open>
  C9, as the code has it. A dispatcher that is not configured sends nothing. A configured
  one posts the report; when that post fails nothing else is sent and the result is the
  failure. When it succeeds the result is the success of the report: with a comparison
  that has its classification (and its history) exactly one more message, the comparison,
  is posted to the destination 2 seconds later, and whatever becomes of it the result is
  unchanged; with no classification only the report is posted.
\<close>

theorem sendRelatorio_messages:
  "(\<not> isConfiguredWA config \<longrightarrow>
       sendRelatorio config respond now k analiseArg st = (sendFailed ApiNaoConfigurada, st))
   \<and> (isConfiguredWA config \<longrightarrow>
       (let report = PostEnviarRelatorio (relatorioPayload config now k);
            st1 = st\<lparr> posted := posted st @ [(waClock st, report)] \<rparr>
        in (\<forall>e. respond report = Inl e \<longrightarrow>
              sendRelatorio config respond now k analiseArg st
                = (sendFailed (ErrorMessage (message e)), st1))
         \<and> (\<forall>d. respond report = Inr d \<longrightarrow>
              (\<not> hasAnalise analiseArg \<longrightarrow>
                 sendRelatorio config respond now k analiseArg st = (sendOk d, st1))
            \<and> (\<forall>a niveis h. analiseArg = Some a \<and> analise a = Some niveis \<and> historicoDe a = Some h \<longrightarrow>
                 sendRelatorio config respond now k analiseArg st
                   = (sendOk d,
                      st\<lparr> posted := posted st @
                             [(waClock st, report),
                              (waClock st + 2000,
                               PostEnviar (destination config) (AnaliseMsg (analiseMensagem a niveis h)))],
                          waClock := waClock st + 2000 \<rparr>)))))"
  unfolding Let_def
  using sendRelatorio_unconfigured [of config respond now k analiseArg st]
    sendRelatorio_first_fails [of config respond now k _ analiseArg st]
    sendRelatorio_no_analise [of config respond now k _ analiseArg st]
    sendRelatorio_with_analise [of config respond now k _ _ _ _ st]
  by blast

theorem sendRelatorio_messages_witness:
  "isConfiguredWA cfgWA
   \<and> secondDown (PostEnviarRelatorio (relatorioPayload cfgWA 0 (zeroKPIs 0 None))) = Inr (JObj [(''ok'', JBool True)])
   \<and> secondDown (PostEnviar (destination cfgWA)
        (AnaliseMsg (analiseMensagem exampleAnalise exampleNiveis threeDaysHistory)))
       = Inl (AxiosError (Some 503) ''Request failed'')
   \<and> fst (sendRelatorio cfgWA secondDown 0 (zeroKPIs 0 None) (Some exampleAnalise) idle)
       = sendOk (JObj [(''ok'', JBool True)])
   \<and> map fst (posted (snd (sendRelatorio cfgWA secondDown 0 (zeroKPIs 0 None) (Some exampleAnalise) idle)))
       = [0, 2000]
   \<and> length (posted (snd (sendRelatorio cfgWA secondDown 0 (zeroKPIs 0 None) None idle))) = 1"
proof -
  have c: "isConfiguredWA cfgWA"
    by (simp add: isConfiguredWA_def cfgWA_def)
  have r1: "secondDown (PostEnviarRelatorio (relatorioPayload cfgWA 0 (zeroKPIs 0 None)))
      = Inr (JObj [(''ok'', JBool True)])"
    by (simp add: secondDown_def)
  have r2: "secondDown (PostEnviar (destination cfgWA)
        (AnaliseMsg (analiseMensagem exampleAnalise exampleNiveis threeDaysHistory)))
       = Inl (AxiosError (Some 503) ''Request failed'')"
    by (simp add: secondDown_def)
  have a: "analise exampleAnalise = Some exampleNiveis" "historicoDe exampleAnalise = Some threeDaysHistory"
    by (simp_all add: exampleAnalise_def)
  have n: "\<not> hasAnalise None"
    by (simp add: hasAnalise_def)
  note th1 = sendRelatorio_messages [of cfgWA secondDown 0 "zeroKPIs 0 None" "Some exampleAnalise" idle,
      unfolded Let_def]
  note th2 = sendRelatorio_messages [of cfgWA secondDown 0 "zeroKPIs 0 None" None idle, unfolded Let_def]
  from th1 c r1 a have s1: "sendRelatorio cfgWA secondDown 0 (zeroKPIs 0 None) (Some exampleAnalise) idle
      = (sendOk (JObj [(''ok'', JBool True)]),
         idle\<lparr> posted := posted idle @
               [(waClock idle, PostEnviarRelatorio (relatorioPayload cfgWA 0 (zeroKPIs 0 None))),
                (waClock idle + 2000, PostEnviar (destination cfgWA)
                   (AnaliseMsg (analiseMensagem exampleAnalise exampleNiveis threeDaysHistory)))],
              waClock := waClock idle + 2000 \<rparr>)"
    by blast
  from th2 c r1 n have s2: "sendRelatorio cfgWA secondDown 0 (zeroKPIs 0 None) None idle
      = (sendOk (JObj [(''ok'', JBool True)]),
         idle\<lparr> posted := posted idle @
               [(waClock idle, PostEnviarRelatorio (relatorioPayload cfgWA 0 (zeroKPIs 0 None)))] \<rparr>)"
    by blast
  show ?thesis
    unfolding s1 s2 using c r1 r2 by (simp add: idle_def)
qed

text \<open>
  C9, as stated, fails: with the messaging API unreachable, a report with a comparison
  whose classification is not null makes one post, not two.
\<close>

theorem sendRelatorio_two_messages_counterexample:
  "isConfiguredWA cfgWA \<and> hasAnalise (Some exampleAnalise)
   \<and> length (posted (snd (sendRelatorio cfgWA netDown 0 (zeroKPIs 0 None) (Some exampleAnalise) idle))) = 1
   \<and> length (posted (snd (sendRelatorio cfgWA netDown 0 (zeroKPIs 0 None) (Some exampleAnalise) idle))) \<noteq> 2
   \<and> \<not> success (fst (sendRelatorio cfgWA netDown 0 (zeroKPIs 0 None) (Some exampleAnalise) idle))"
  by (simp add: sendRelatorio_def apiPost_def isConfiguredWA_def cfgWA_def hasAnalise_def
      exampleAnalise_def netDown_def idle_def sendFailed_def)

end
